theory Spec2Isabelle
  imports Complex_Main "HOL-Library.Char_ord" "HOL-Library.List_Lexorder"
begin

section \<open>Python values\<close>

text \<open>
  A Python \<^verbatim>\<open>str\<close> is modelled as a HOL \<^typ>\<open>string\<close>, one \<^typ>\<open>char\<close> per code point, so
  the texts of the model are those whose code points lie below 256. On that range
  \<^verbatim>\<open>str.lower\<close>, \<^verbatim>\<open>repr\<close> and the classes \<^verbatim>\<open>\w\<close>, \<^verbatim>\<open>\s\<close>, \<^verbatim>\<open>\d\<close> of the \<^verbatim>\<open>re\<close> module are
  written out below as CPython computes them.
\<close>

datatype error =
  KeyError string
  | IndexError
  | TypeError
  | AttributeError
  | ZeroDivisionError

type_synonym 'a result = "error + 'a"

definition code :: "char \<Rightarrow> nat" where
  "code c = of_char c"

text \<open>\<^verbatim>\<open>str.lower()\<close>: A-Z and the Latin-1 capitals (192..222 but the sign 215) move up by 32.\<close>

definition lower_char :: "char \<Rightarrow> char" where
  "lower_char c =
     (let n = code c in
      if (65 \<le> n \<and> n \<le> 90) \<or> (192 \<le> n \<and> n \<le> 222 \<and> n \<noteq> 215)
      then char_of (n + 32) else c)"

definition lower :: "string \<Rightarrow> string" where
  "lower s = map lower_char s"

text \<open>\<^verbatim>\<open>s.startswith(sub)\<close> and the operator \<^verbatim>\<open>sub in s\<close> on strings.\<close>

fun startswith :: "string \<Rightarrow> string \<Rightarrow> bool" where
  "startswith s [] = True"
| "startswith [] (c # sub) = False"
| "startswith (d # s) (c # sub) = (d = c \<and> startswith s sub)"

fun py_in :: "string \<Rightarrow> string \<Rightarrow> bool" where
  "py_in sub [] = (sub = [])"
| "py_in sub (d # s) = (startswith (d # s) sub \<or> py_in sub s)"

text \<open>
  \<^verbatim>\<open>repr\<close> of a string: single quotes, unless the string holds a single quote and no
  double quote; the quote in use and the backslash are escaped, tab, newline and
  carriage return are written \<^verbatim>\<open>\t \n \r\<close>, and every other code point that is not
  printable as \<^verbatim>\<open>\xhh\<close>. \<^verbatim>\<open>str\<close> of a list joins the \<^verbatim>\<open>repr\<close> of its elements.
\<close>

definition hex_digit :: "nat \<Rightarrow> char" where
  "hex_digit d = ''0123456789abcdef'' ! (d mod 16)"

definition repr_char :: "char \<Rightarrow> char \<Rightarrow> string" where
  "repr_char q c =
     (let n = code c in
      if c = q \<or> n = 92 then [CHR 0x5C, c]
      else if n = 9 then [CHR 0x5C, CHR ''t'']
      else if n = 10 then [CHR 0x5C, CHR ''n'']
      else if n = 13 then [CHR 0x5C, CHR ''r'']
      else if n < 32 \<or> n = 127 \<or> (128 \<le> n \<and> n \<le> 160) \<or> n = 173
      then [CHR 0x5C, CHR ''x'', hex_digit (n div 16), hex_digit n]
      else [c])"

definition py_repr :: "string \<Rightarrow> string" where
  "py_repr s =
     (let q = (if CHR 0x27 \<in> set s \<and> CHR 0x22 \<notin> set s then CHR 0x22 else CHR 0x27)
      in [q] @ concat (map (repr_char q) s) @ [q])"

fun join :: "string \<Rightarrow> string list \<Rightarrow> string" where
  "join sep [] = []"
| "join sep [x] = x"
| "join sep (x # y # ys) = x @ sep @ join sep (y # ys)"

definition str_list :: "string list \<Rightarrow> string" where
  "str_list xs = ''['' @ join '', '' (map py_repr xs) @ '']''"

section \<open>The \<^verbatim>\<open>re\<close> module\<close>

text \<open>
  The patterns of both programs use literals, character classes, \<^verbatim>\<open>\b\<close>, sequencing and
  counted, greedy or lazy repetition. A pattern is matched as the backtracking engine of
  \<^verbatim>\<open>re\<close> does it: \<open>ends r cur\<close> lists the positions where a match of \<open>r\<close> that starts at
  \<open>cur\<close> can end, in the order in which the engine tries them, so the match it reports
  is the head of the list. A position is the character before it (for \<^verbatim>\<open>\b\<close>) and the rest
  of the text.
\<close>

datatype regex =
  Eps
  | Chr "char \<Rightarrow> bool"
  | WordB
  | Seq regex regex
  | Rep regex nat "nat option" bool

type_synonym cursor = "char option \<times> string"

definition is_digit :: "char \<Rightarrow> bool" where
  "is_digit c = (48 \<le> code c \<and> code c \<le> 57)"

definition ascii_alnum :: "char \<Rightarrow> bool" where
  "ascii_alnum c =
     (let n = code c in (48 \<le> n \<and> n \<le> 57) \<or> (65 \<le> n \<and> n \<le> 90) \<or> (97 \<le> n \<and> n \<le> 122))"

text \<open>\<^verbatim>\<open>\w\<close> and \<^verbatim>\<open>\s\<close> of a \<^verbatim>\<open>str\<close> pattern, on the code points below 256.\<close>

definition is_word :: "char \<Rightarrow> bool" where
  "is_word c =
     (let n = code c in
      ascii_alnum c \<or> n = 95 \<or> n = 170 \<or> n = 178 \<or> n = 179 \<or> n = 181 \<or> n = 185 \<or> n = 186 \<or>
      (188 \<le> n \<and> n \<le> 190) \<or> (192 \<le> n \<and> n \<le> 214) \<or> (216 \<le> n \<and> n \<le> 246) \<or> 248 \<le> n)"

definition is_space :: "char \<Rightarrow> bool" where
  "is_space c =
     (let n = code c in (9 \<le> n \<and> n \<le> 13) \<or> (28 \<le> n \<and> n \<le> 32) \<or> n = 133 \<or> n = 160)"

definition at_boundary :: "cursor \<Rightarrow> bool" where
  "at_boundary cur =
     ((case fst cur of None \<Rightarrow> False | Some c \<Rightarrow> is_word c) \<noteq>
      (case snd cur of [] \<Rightarrow> False | c # cs \<Rightarrow> is_word c))"

text \<open>Between \<open>lo\<close> and \<open>hi\<close> further repetitions of a pattern whose matcher is \<open>f\<close>: a
  greedy repetition tries one more round before it stops, a lazy one stops first.\<close>

fun iter :: "(cursor \<Rightarrow> cursor list) \<Rightarrow> bool \<Rightarrow> nat \<Rightarrow> nat \<Rightarrow> cursor \<Rightarrow> cursor list" where
  "iter f greedy lo 0 cur = (if lo = 0 then [cur] else [])"
| "iter f greedy lo (Suc hi) cur =
     (let more = concat (map (iter f greedy (lo - 1) hi) (f cur))
      in if 0 < lo then more else if greedy then more @ [cur] else cur # more)"

text \<open>A repetition without an upper bound runs at most once per remaining character
  (plus its minimum): the bodies repeated here consume a character each round.\<close>

primrec ends :: "regex \<Rightarrow> cursor \<Rightarrow> cursor list" where
  "ends Eps cur = [cur]"
| "ends (Chr P) cur =
     (case snd cur of [] \<Rightarrow> [] | c # cs \<Rightarrow> if P c then [(Some c, cs)] else [])"
| "ends WordB cur = (if at_boundary cur then [cur] else [])"
| "ends (Seq r1 r2) cur = concat (map (ends r2) (ends r1 cur))"
| "ends (Rep r lo hi greedy) cur =
     iter (ends r) greedy lo
       (case hi of None \<Rightarrow> lo + length (snd cur) | Some h \<Rightarrow> h) cur"

text \<open>
  \<^verbatim>\<open>pattern.findall(text)\<close> for a pattern without capture groups: the matched substrings,
  left to right, not overlapping. After an empty match the next match at the same
  position has to be non-empty (\<open>must_advance\<close>).
\<close>

function findall_from :: "regex \<Rightarrow> bool \<Rightarrow> cursor \<Rightarrow> string list" where
  "findall_from r must_advance cur =
     (case (if must_advance
            then filter (\<lambda>e. length (snd e) < length (snd cur)) (ends r cur)
            else ends r cur) of
        [] \<Rightarrow>
          (case snd cur of
             [] \<Rightarrow> []
           | c # cs \<Rightarrow> findall_from r False (Some c, cs))
      | e # es \<Rightarrow>
          if length (snd e) < length (snd cur)
          then take (length (snd cur) - length (snd e)) (snd cur) # findall_from r False e
          else if must_advance then []
          else [] # findall_from r True cur)"
  by pat_completeness auto
termination
  by (relation "measure (\<lambda>(r, must_advance, cur). 2 * length (snd cur) + (if must_advance then 0 else 1))")
     auto

definition findall :: "regex \<Rightarrow> string \<Rightarrow> string list" where
  "findall r text = findall_from r False (None, text)"

fun seqs :: "regex list \<Rightarrow> regex" where
  "seqs [] = Eps"
| "seqs [r] = r"
| "seqs (r # rs) = Seq r (seqs rs)"

definition one_of :: "string \<Rightarrow> regex" where
  "one_of cs = Chr (\<lambda>c. c \<in> set cs)"

definition plus :: "regex \<Rightarrow> regex" where
  "plus r = Rep r 1 None True"

definition opt :: "regex \<Rightarrow> regex" where
  "opt r = Rep r 0 (Some 1) True"

text \<open>A literal under \<^verbatim>\<open>re.IGNORECASE\<close>, and a literal as it stands.\<close>

definition literal_i :: "string \<Rightarrow> regex" where
  "literal_i s = seqs (map (\<lambda>c. Chr (\<lambda>x. lower_char x = lower_char c)) s)"

definition literal :: "string \<Rightarrow> regex" where
  "literal s = seqs (map (\<lambda>c. Chr (\<lambda>x. x = c)) s)"

section \<open>wow.py: the keyword and entity matcher\<close>

text \<open>\<^verbatim>\<open>re.compile(r"\bword\b", re.IGNORECASE)\<close>.\<close>

definition kw :: "string \<Rightarrow> regex" where
  "kw s = Seq WordB (Seq (literal_i s) WordB)"

text \<open>
  \<^verbatim>\<open>COMPILED_THREATS\<close>, in the order of the dict \<^verbatim>\<open>THREAT_KEYWORDS\<close>. The last entry of
  the Terrorism list is written in the source as two adjacent string literals with no
  comma between them, \<^verbatim>\<open>r"\brecruitment\b" r"\brifle\b"\<close>, which Python joins into the one
  pattern \<^verbatim>\<open>\brecruitment\b\brifle\b\<close>.
\<close>

definition COMPILED_THREATS :: "(string \<times> regex list) list" where
  "COMPILED_THREATS =
     [(''Financial fraud'',
         [kw ''bank card'', kw ''approval code'', kw ''cash receipt'', kw ''total'',
          kw ''cash'', kw ''change'']),
      (''Identity theft'',
         [kw ''aadhar'', kw ''pan'', kw ''passport'', kw ''ssn'', kw ''dl'']),
      (''Weapons/Violence'',
         [kw ''knife'', kw ''gun'', kw ''rifle'', kw ''grenade'', kw ''explosive'']),
      (''Drugs/Illegal'',
         [kw ''cocaine'', kw ''weed'', kw ''heroin'', kw ''meth'']),
      (''Explicit content'',
         [kw ''xxx'', kw ''nsfw'', kw ''18+'']),
      (''Terrorism'',
         [kw ''bomb'', kw ''attack'', kw ''isis'', Seq (kw ''recruitment'') (kw ''rifle'')]),
      (''Surveillance'',
         [kw ''location'', kw ''recording'', kw ''camera'', kw ''tracking'']),
      (''Encrypted/Hidden'',
         [kw ''encrypted'', kw ''password-protected'', kw ''stego'', kw ''steganography''])]"

text \<open>
  \<^verbatim>\<open>EMAIL_RE = [a-zA-Z0-9_.+-]+@[a-zA-Z0-9-]+\.[a-zA-Z0-9-.]+\<close>,
  \<^verbatim>\<open>URL_RE = https?://[^\s]+\<close>,
  \<^verbatim>\<open>PHONE_RE = \b\d{3,4}[-.\s]?\d{3,4}[-.\s]?\d{4}\b\<close>,
  \<^verbatim>\<open>CREDIT_CARD_RE = \b(?:\d[ -]*?){13,16}\b\<close>.
\<close>

definition EMAIL_RE :: regex where
  "EMAIL_RE =
     seqs [plus (Chr (\<lambda>c. ascii_alnum c \<or> c \<in> set ''_.+-'')),
           literal ''@'',
           plus (Chr (\<lambda>c. ascii_alnum c \<or> c = CHR ''-'')),
           literal ''.'',
           plus (Chr (\<lambda>c. ascii_alnum c \<or> c \<in> set ''-.''))]"

definition URL_RE :: regex where
  "URL_RE =
     seqs [literal ''http'', opt (literal ''s''), literal ''://'',
           plus (Chr (\<lambda>c. \<not> is_space c))]"

definition phone_sep :: regex where
  "phone_sep = opt (Chr (\<lambda>c. c \<in> set ''-.'' \<or> is_space c))"

definition PHONE_RE :: regex where
  "PHONE_RE =
     seqs [WordB, Rep (Chr is_digit) 3 (Some 4) True, phone_sep,
           Rep (Chr is_digit) 3 (Some 4) True, phone_sep,
           Rep (Chr is_digit) 4 (Some 4) True, WordB]"

definition CREDIT_CARD_RE :: regex where
  "CREDIT_CARD_RE =
     seqs [WordB,
           Rep (Seq (Chr is_digit) (Rep (one_of '' -'') 0 None False)) 13 (Some 16) True,
           WordB]"

text \<open>
  \<^verbatim>\<open>detect_keywords\<close>: every match of every pattern adds its category to the set
  \<^verbatim>\<open>cats\<close> and its text to the list \<^verbatim>\<open>keys\<close>. \<^verbatim>\<open>list(cats)\<close> comes in the set's own order,
  which the language leaves open; the list here is in order of first match, and only
  its elements are meant.
\<close>

definition keyword_hits :: "string \<Rightarrow> (string \<times> string) list" where
  "keyword_hits text =
     concat (map (\<lambda>(cat, patterns).
       concat (map (\<lambda>pat. map (\<lambda>m. (cat, m)) (findall pat text)) patterns))
       COMPILED_THREATS)"

definition detect_keywords :: "string \<Rightarrow> string list \<times> string list" where
  "detect_keywords text =
     (rev (remdups (rev (map fst (keyword_hits text)))), map snd (keyword_hits text))"

record entity =
  ent_type :: string
  ent_value :: string

definition detect_entities :: "string \<Rightarrow> entity list" where
  "detect_entities text =
     concat (map (\<lambda>(label, regex).
       map (\<lambda>m. \<lparr>ent_type = label, ent_value = m\<rparr>) (findall regex text))
       [(''email'', EMAIL_RE), (''url'', URL_RE), (''phone'', PHONE_RE),
        (''credit_card'', CREDIT_CARD_RE)])"

definition compute_score :: "nat \<Rightarrow> nat \<Rightarrow> nat" where
  "compute_score num_keys num_ents = num_keys + 2 * num_ents"

text \<open>The values \<^verbatim>\<open>json.load\<close> returns, a dict as the list of its items.\<close>

datatype json =
  JNull
  | JBool bool
  | JNum rat
  | JStr string
  | JArr "json list"
  | JObj "(string \<times> json) list"

definition truthy :: "json \<Rightarrow> bool" where
  "truthy v =
     (case v of
        JNull \<Rightarrow> False
      | JBool b \<Rightarrow> b
      | JNum x \<Rightarrow> x \<noteq> 0
      | JStr s \<Rightarrow> s \<noteq> []
      | JArr xs \<Rightarrow> xs \<noteq> []
      | JObj kvs \<Rightarrow> kvs \<noteq> [])"

text \<open>\<^verbatim>\<open>d.get(k, default)\<close>; \<^verbatim>\<open>d.get(k)\<close> has the default \<^verbatim>\<open>None\<close>.\<close>

definition dict_get :: "(string \<times> json) list \<Rightarrow> string \<Rightarrow> json \<Rightarrow> json" where
  "dict_get d k dflt = (case map_of d k of None \<Rightarrow> dflt | Some v \<Rightarrow> v)"

record predicted_threats =
  threat_detected :: bool
  score :: nat
  categories :: "string list"
  keyword_matches :: "string list"

record analysis =
  file_field :: json
  analysed_text :: string
  entities :: "entity list"
  predicted :: predicted_threats

text \<open>
  The body of the loop of \<^verbatim>\<open>analyze_json\<close> for one entry. \<^verbatim>\<open>text\<close> is whatever the entry
  holds; \<^verbatim>\<open>findall\<close> raises \<^verbatim>\<open>TypeError\<close> on a value that is not a string. The summary
  sentence of the result is a rendering of the other fields and is left out.
\<close>

definition entry_file :: "(string \<times> json) list \<Rightarrow> json" where
  "entry_file entry =
     (if truthy (dict_get entry ''path'' JNull) then dict_get entry ''path'' JNull
      else if truthy (dict_get entry ''file_path'' JNull) then dict_get entry ''file_path'' JNull
      else JStr ''unknown'')"

definition entry_text :: "(string \<times> json) list \<Rightarrow> json" where
  "entry_text entry =
     (case dict_get entry ''content'' (JStr []) of
        JObj c \<Rightarrow> dict_get c ''text'' (JStr [])
      | v \<Rightarrow> v)"

definition analyze_entry :: "(string \<times> json) list \<Rightarrow> analysis result" where
  "analyze_entry entry =
     (case entry_text entry of
        JStr t \<Rightarrow>
          (let (cats, keys) = detect_keywords t;
               ents = detect_entities t;
               sc = compute_score (length keys) (length ents);
               threat = (0 < sc)
           in Inr \<lparr>file_field = entry_file entry, analysed_text = t, entities = ents,
                   predicted = \<lparr>threat_detected = threat, score = sc, categories = cats,
                                keyword_matches = keys\<rparr>\<rparr>)
      | _ \<Rightarrow> Inl TypeError)"

text \<open>
  \<^verbatim>\<open>analyze_json\<close> on the parsed document: a document that is not a list is one entry,
  an entry that is not a dict has no \<^verbatim>\<open>get\<close>, and the first exception ends the loop
  before any result is written.
\<close>

fun as_entry :: "json \<Rightarrow> (string \<times> json) list result" where
  "as_entry (JObj kvs) = Inr kvs"
| "as_entry v = Inl AttributeError"

definition analyze_value :: "json \<Rightarrow> analysis result" where
  "analyze_value v = (case as_entry v of Inl e \<Rightarrow> Inl e | Inr entry \<Rightarrow> analyze_entry entry)"

fun analyze_values :: "json list \<Rightarrow> analysis list result" where
  "analyze_values [] = Inr []"
| "analyze_values (v # vs) =
     (case analyze_value v of
        Inl e \<Rightarrow> Inl e
      | Inr a \<Rightarrow> (case analyze_values vs of Inl e \<Rightarrow> Inl e | Inr as \<Rightarrow> Inr (a # as)))"

definition analyze_json :: "json \<Rightarrow> analysis list result" where
  "analyze_json doc = analyze_values (case doc of JArr vs \<Rightarrow> vs | v \<Rightarrow> [v])"

section \<open>rar.py: the metadata analyzer\<close>

subsection \<open>Records and the session\<close>

text \<open>
  One element of the parsed JSON document: a dict whose keys may be absent
  (\<^const>\<open>None\<close>). The values are the strings and the list of strings the analyzer
  is written for; \<^verbatim>\<open>item['k']\<close> on an absent key raises \<^verbatim>\<open>KeyError\<close>,
  \<^verbatim>\<open>item.get('k', d)\<close> gives the default.
\<close>

record item =
  path :: "string option"
  item_type :: "string option"
  content :: "string option"
  tags :: "string list option"

text \<open>\<^verbatim>\<open>str(item.get('content', ''))\<close>, \<^verbatim>\<open>item.get('content')\<close> as a truth value,
  \<^verbatim>\<open>item.get('tags', [])\<close>.\<close>

definition content_str :: "item \<Rightarrow> string" where
  "content_str it = (case content it of None \<Rightarrow> [] | Some c \<Rightarrow> c)"

definition has_content :: "item \<Rightarrow> bool" where
  "has_content it = (case content it of None \<Rightarrow> False | Some c \<Rightarrow> c \<noteq> [])"

definition get_tags :: "item \<Rightarrow> string list" where
  "get_tags it = (case tags it of None \<Rightarrow> [] | Some ts \<Rightarrow> ts)"

text \<open>The networkx graph: nodes in insertion order with their attributes, and the
  undirected edges, each stored once.\<close>

record node_attrs =
  node_kind :: string
  file_type :: "string option"
  is_threat :: "bool option"

record graph =
  nodes :: "(string \<times> node_attrs) list"
  edges :: "(string \<times> string) list"

type_synonym shared_tags_t = "(string \<times> string list) list"
type_synonym cooccurrence_t = "((string \<times> string) \<times> nat) list"

text \<open>
  The fields of \<^verbatim>\<open>ForensicMetadataAnalyzer\<close>. \<^verbatim>\<open>self.data\<close> and \<^verbatim>\<open>self.tag_graph\<close> start
  as \<^verbatim>\<open>None\<close>; \<^verbatim>\<open>self.correlations\<close> starts as the empty dict (\<^const>\<open>None\<close> here) and
  later holds both of its keys. The data frame \<^verbatim>\<open>self.df\<close> is a copy of the data that
  no analysis reads, and is left out.
\<close>

record analyzer =
  data :: "item list option"
  threat_items :: "nat list"
  safe_items :: "nat list"
  correlations :: "(shared_tags_t \<times> cooccurrence_t) option"
  tag_graph :: "graph option"

definition init :: analyzer where
  "init = \<lparr>data = None, threat_items = [], safe_items = [], correlations = None,
            tag_graph = None\<rparr>"

subsection \<open>Categorization\<close>

text \<open>
  The body of the loop of \<^verbatim>\<open>_categorize_items\<close> for one item: \<^const>\<open>True\<close> when the
  index goes to \<^verbatim>\<open>threat_items\<close>, \<^const>\<open>False\<close> when it goes to \<^verbatim>\<open>safe_items\<close>.
  \<^verbatim>\<open>item['path']\<close> is evaluated first and raises when the key is absent.
\<close>

definition content_keywords :: "string list" where
  "content_keywords = [''bomb'', ''attack'', ''explosive'', ''threat'', ''terrorist'']"

definition weapon_words :: "string list" where
  "weapon_words = [''assault rifle'', ''rifle'', ''revolver'', ''weapon'', ''bulletproof'']"

definition classify :: "item \<Rightarrow> bool result" where
  "classify it =
     (case path it of
        None \<Rightarrow> Inl (KeyError ''path'')
      | Some p \<Rightarrow>
          if py_in ''_threat'' (lower p) \<or> py_in ''threat'' (lower (content_str it))
          then Inr True
          else if py_in ''_safe'' (lower p) then Inr False
          else if has_content it \<and>
                  list_ex (\<lambda>keyword. py_in keyword (lower (content_str it))) content_keywords
          then Inr True
          else if list_ex (\<lambda>weapon. py_in weapon (lower (str_list (get_tags it)))) weapon_words
          then Inr True
          else Inr False)"

text \<open>The loop over \<^verbatim>\<open>enumerate(self.data)\<close>, from index \<open>idx\<close> on. An exception
  leaves the lists as the earlier iterations made them.\<close>

fun categorize_from :: "nat \<Rightarrow> item list \<Rightarrow> analyzer \<Rightarrow> unit result \<times> analyzer" where
  "categorize_from idx [] st = (Inr (), st)"
| "categorize_from idx (it # rest) st =
     (case classify it of
        Inl e \<Rightarrow> (Inl e, st)
      | Inr True \<Rightarrow>
          categorize_from (Suc idx) rest (st\<lparr>threat_items := threat_items st @ [idx]\<rparr>)
      | Inr False \<Rightarrow>
          categorize_from (Suc idx) rest (st\<lparr>safe_items := safe_items st @ [idx]\<rparr>))"

definition categorize_items :: "analyzer \<Rightarrow> unit result \<times> analyzer" where
  "categorize_items st =
     (case data st of
        None \<Rightarrow> (Inl TypeError, st)
      | Some d \<Rightarrow> categorize_from 0 d st)"

text \<open>\<^verbatim>\<open>load_json_data\<close> on a parsed document (the branch that is not a \<^verbatim>\<open>str\<close>).\<close>

definition load_json_data :: "item list \<Rightarrow> analyzer \<Rightarrow> unit result \<times> analyzer" where
  "load_json_data json_data st = categorize_items (st\<lparr>data := Some json_data\<rparr>)"

subsection \<open>Tag correlations\<close>

text \<open>A \<^verbatim>\<open>defaultdict(list)\<close> and a \<^verbatim>\<open>defaultdict(int)\<close> (or \<^verbatim>\<open>Counter\<close>), each as the list
  of its items in insertion order: \<^verbatim>\<open>d[k].append(v)\<close> and \<^verbatim>\<open>d[k] += 1\<close>.\<close>

fun append_at :: "'k \<Rightarrow> 'v \<Rightarrow> ('k \<times> 'v list) list \<Rightarrow> ('k \<times> 'v list) list" where
  "append_at k v [] = [(k, [v])]"
| "append_at k v ((k', vs) # m) =
     (if k' = k then (k', vs @ [v]) # m else (k', vs) # append_at k v m)"

fun increment :: "'k \<Rightarrow> ('k \<times> nat) list \<Rightarrow> ('k \<times> nat) list" where
  "increment k [] = [(k, 1)]"
| "increment k ((k', n) # m) =
     (if k' = k then (k', n + 1) # m else (k', n) # increment k m)"

type_synonym tag_index = "(string \<times> string list) list \<times> (string \<times> string list) list"

definition index_item_tags :: "string \<Rightarrow> string list \<Rightarrow> tag_index \<Rightarrow> tag_index" where
  "index_item_tags file_path ts idx =
     fold (\<lambda>tag (tag_to_files, file_to_tags).
             (append_at tag file_path tag_to_files, append_at file_path tag file_to_tags))
       ts idx"

fun index_items :: "item list \<Rightarrow> tag_index \<Rightarrow> tag_index result" where
  "index_items [] idx = Inr idx"
| "index_items (it # rest) idx =
     (case path it of
        None \<Rightarrow> Inl (KeyError ''path'')
      | Some file_path \<Rightarrow> index_items rest (index_item_tags file_path (get_tags it) idx))"

text \<open>\<^verbatim>\<open>tuple(sorted([a, b]))\<close>, and the pairs of the double loop over \<open>i < j\<close>.\<close>

definition sorted_pair :: "string \<Rightarrow> string \<Rightarrow> string \<times> string" where
  "sorted_pair a b = (if b < a then (b, a) else (a, b))"

fun tag_pairs :: "string list \<Rightarrow> (string \<times> string) list" where
  "tag_pairs [] = []"
| "tag_pairs (t # ts) = map (sorted_pair t) ts @ tag_pairs ts"

definition file_pairs :: "(string \<times> string list) list \<Rightarrow> (string \<times> string) list" where
  "file_pairs file_to_tags =
     concat (map (\<lambda>(file_path, ts). if 1 < length ts then tag_pairs ts else []) file_to_tags)"

definition count_cooccurrence :: "(string \<times> string list) list \<Rightarrow> cooccurrence_t" where
  "count_cooccurrence file_to_tags = fold increment (file_pairs file_to_tags) []"

definition find_tag_correlations ::
  "analyzer \<Rightarrow> (shared_tags_t \<times> cooccurrence_t) result \<times> analyzer" where
  "find_tag_correlations st =
     (case data st of
        None \<Rightarrow> (Inl TypeError, st)
      | Some d \<Rightarrow>
          (case index_items d ([], []) of
             Inl e \<Rightarrow> (Inl e, st)
           | Inr (tag_to_files, file_to_tags) \<Rightarrow>
               (let shared_tags = filter (\<lambda>(tag, files). 1 < length files) tag_to_files;
                    tag_cooccurrence = count_cooccurrence file_to_tags
                in (Inr (shared_tags, tag_cooccurrence),
                    st\<lparr>correlations := Some (shared_tags, tag_cooccurrence)\<rparr>))))"

subsection \<open>The tag graph\<close>

text \<open>
  \<^verbatim>\<open>G.add_node\<close> on a node that exists overwrites the attributes it is given (here all
  three); \<^verbatim>\<open>G.add_edge\<close> stores an undirected edge once. Both end points of every edge
  added here are nodes already.
\<close>

definition has_node :: "graph \<Rightarrow> string \<Rightarrow> bool" where
  "has_node G n = (n \<in> set (map fst (nodes G)))"

definition add_file_node :: "string \<Rightarrow> string \<Rightarrow> bool \<Rightarrow> graph \<Rightarrow> graph" where
  "add_file_node n ft thr G =
     (let a = \<lparr>node_kind = ''file'', file_type = Some ft, is_threat = Some thr\<rparr>
      in if has_node G n
         then G\<lparr>nodes := map (\<lambda>(m, b). if m = n then (m, a) else (m, b)) (nodes G)\<rparr>
         else G\<lparr>nodes := nodes G @ [(n, a)]\<rparr>)"

definition add_tag_node :: "string \<Rightarrow> graph \<Rightarrow> graph" where
  "add_tag_node n G =
     G\<lparr>nodes := nodes G @ [(n, \<lparr>node_kind = ''tag'', file_type = None, is_threat = None\<rparr>)]\<rparr>"

definition has_edge :: "graph \<Rightarrow> string \<Rightarrow> string \<Rightarrow> bool" where
  "has_edge G u v = ((u, v) \<in> set (edges G) \<or> (v, u) \<in> set (edges G))"

definition add_edge :: "string \<Rightarrow> string \<Rightarrow> graph \<Rightarrow> graph" where
  "add_edge u v G = (if has_edge G u v then G else G\<lparr>edges := edges G @ [(u, v)]\<rparr>)"

definition add_tags :: "string \<Rightarrow> string list \<Rightarrow> graph \<Rightarrow> graph" where
  "add_tags file_path ts G =
     fold (\<lambda>tag H. add_edge file_path tag (if has_node H tag then H else add_tag_node tag H))
       ts G"

fun add_items :: "nat \<Rightarrow> item list \<Rightarrow> nat list \<Rightarrow> graph \<Rightarrow> graph result" where
  "add_items idx [] threats G = Inr G"
| "add_items idx (it # rest) threats G =
     (case path it of
        None \<Rightarrow> Inl (KeyError ''path'')
      | Some file_path \<Rightarrow>
          (case item_type it of
             None \<Rightarrow> Inl (KeyError ''type'')
           | Some t \<Rightarrow>
               add_items (Suc idx) rest threats
                 (add_tags file_path (get_tags it)
                    (add_file_node file_path t (idx \<in> set threats) G))))"

definition empty_graph :: graph where
  "empty_graph = \<lparr>nodes = [], edges = []\<rparr>"

text \<open>
  \<^verbatim>\<open>networkx.degree_centrality\<close>, a function of the library: every node gets 1 when the
  graph has at most one node, and its degree divided by the number of nodes less one
  otherwise; a loop counts twice in the degree. The library computes the quotient in
  floating point; the values here are the exact quotients, which order the nodes alike.
\<close>

definition degree :: "graph \<Rightarrow> string \<Rightarrow> nat" where
  "degree G n =
     length (filter (\<lambda>(u, v). u = n) (edges G)) + length (filter (\<lambda>(u, v). v = n) (edges G))"

definition degree_centrality :: "graph \<Rightarrow> (string \<times> rat) list" where
  "degree_centrality G =
     (if length (nodes G) \<le> 1 then map (\<lambda>(n, a). (n, 1)) (nodes G)
      else map (\<lambda>(n, a). (n, of_nat (degree G n) / (of_nat (length (nodes G)) - 1))) (nodes G))"

record graph_stats =
  stat_nodes :: nat
  stat_edges :: nat
  top_central_nodes :: "(string \<times> rat) list"
  communities :: nat
  largest_community_size :: nat

text \<open>
  \<^verbatim>\<open>build_tag_graph\<close>. The community detection
  \<^verbatim>\<open>networkx.community.greedy_modularity_communities\<close> is a function of the library and
  the parameter \<open>gmc\<close> here: it may raise, and the builder neither guards the call nor
  changes what it returns. The graph is stored in the session before the library is
  called. \<^verbatim>\<open>sorted(..., reverse=True)\<close> keeps the order of equal keys.
\<close>

definition build_tag_graph ::
  "(graph \<Rightarrow> string list list result) \<Rightarrow> analyzer \<Rightarrow> (graph \<times> graph_stats) result \<times> analyzer"
  where
  "build_tag_graph gmc st =
     (case data st of
        None \<Rightarrow> (Inl TypeError, st)
      | Some d \<Rightarrow>
          (case add_items 0 d (threat_items st) empty_graph of
             Inl e \<Rightarrow> (Inl e, st)
           | Inr G \<Rightarrow>
               (let st' = st\<lparr>tag_graph := Some G\<rparr>;
                    centrality = degree_centrality G
                in case gmc G of
                     Inl e \<Rightarrow> (Inl e, st')
                   | Inr comms \<Rightarrow>
                       (Inr (G, \<lparr>stat_nodes = length (nodes G),
                                 stat_edges = length (edges G),
                                 top_central_nodes =
                                   take 5 (sort_key (\<lambda>x. - snd x) centrality),
                                 communities = length comms,
                                 largest_community_size =
                                   (case comms of [] \<Rightarrow> 0 | c # cs \<Rightarrow> length c)\<rparr>),
                        st'))))"

subsection \<open>Content analysis\<close>

record text_item =
  ti_path :: string
  ti_content :: string
  ti_is_threat :: bool

text \<open>\<^verbatim>\<open>any(item['path'] == self.data[idx]['path'] for idx in self.threat_items)\<close>.\<close>

fun any_threat_path :: "item list \<Rightarrow> string \<Rightarrow> nat list \<Rightarrow> bool result" where
  "any_threat_path d p [] = Inr False"
| "any_threat_path d p (idx # rest) =
     (if idx < length d
      then (case path (d ! idx) of
              None \<Rightarrow> Inl (KeyError ''path'')
            | Some q \<Rightarrow> if p = q then Inr True else any_threat_path d p rest)
      else Inl IndexError)"

fun collect_text :: "item list \<Rightarrow> nat list \<Rightarrow> item list \<Rightarrow> text_item list result" where
  "collect_text d threats [] = Inr []"
| "collect_text d threats (it # rest) =
     (case item_type it of
        None \<Rightarrow> Inl (KeyError ''type'')
      | Some t \<Rightarrow>
          if t = ''file'' \<and> has_content it
          then (case path it of
                  None \<Rightarrow> Inl (KeyError ''path'')
                | Some p \<Rightarrow>
                    (case any_threat_path d p threats of
                       Inl e \<Rightarrow> Inl e
                     | Inr b \<Rightarrow>
                         (case collect_text d threats rest of
                            Inl e \<Rightarrow> Inl e
                          | Inr tis \<Rightarrow>
                              Inr (\<lparr>ti_path = p, ti_content = content_str it,
                                    ti_is_threat = b\<rparr> # tis))))
          else collect_text d threats rest)"

definition threat_keywords :: "string list" where
  "threat_keywords =
     [''bomb'', ''attack'', ''threat'', ''explosive'', ''rifle'', ''planning'', ''illegal'']"

definition keyword_occurrences_of :: "text_item list \<Rightarrow> (string \<times> string list) list" where
  "keyword_occurrences_of text_contents =
     fold (\<lambda>item occ.
             fold (\<lambda>keyword occ'.
                     if py_in keyword (lower (ti_content item))
                     then append_at keyword (ti_path item) occ' else occ')
               threat_keywords occ)
       text_contents []"

text \<open>\<^verbatim>\<open>set(re.findall(r'\b\w+\b', content.lower()))\<close>.\<close>

definition WORD_RE :: regex where
  "WORD_RE = seqs [WordB, plus (Chr is_word), WordB]"

definition words :: "string \<Rightarrow> string set" where
  "words s = set (findall WORD_RE (lower s))"

record similarity_edge =
  file1 :: string
  file2 :: string
  similarity :: rat
  common_words :: "string set"

text \<open>
  The body of the inner loop for one pair: the edges it appends (none or one). Python
  divides two integers into a floating-point number and compares it with the
  floating-point 0.1; the model keeps the exact quotient and the exact tenth.
\<close>

definition compare_pair :: "text_item \<Rightarrow> text_item \<Rightarrow> similarity_edge list" where
  "compare_pair item1 item2 =
     (let words1 = words (ti_content item1);
          words2 = words (ti_content item2)
      in if words1 \<noteq> {} \<and> words2 \<noteq> {}
         then (let overlap = card (words1 \<inter> words2);
                   sim = of_nat overlap / of_nat (card (words1 \<union> words2))
               in if sim > 1 / 10
                  then [\<lparr>file1 = ti_path item1, file2 = ti_path item2, similarity = sim,
                          common_words = words1 \<inter> words2\<rparr>]
                  else [])
         else [])"

fun similarity_pairs :: "text_item list \<Rightarrow> similarity_edge list" where
  "similarity_pairs [] = []"
| "similarity_pairs (item1 # rest) =
     concat (map (compare_pair item1) rest) @ similarity_pairs rest"

record content_analysis =
  keyword_occurrences :: "(string \<times> string list) list"
  content_similarity :: "similarity_edge list"

definition analyze_content :: "analyzer \<Rightarrow> content_analysis result \<times> analyzer" where
  "analyze_content st =
     (case data st of
        None \<Rightarrow> (Inl TypeError, st)
      | Some d \<Rightarrow>
          (case collect_text d (threat_items st) d of
             Inl e \<Rightarrow> (Inl e, st)
           | Inr text_contents \<Rightarrow>
               (Inr \<lparr>keyword_occurrences = keyword_occurrences_of text_contents,
                     content_similarity = similarity_pairs text_contents\<rparr>, st)))"

subsection \<open>The threat report\<close>

record threat_analysis =
  ta_count :: nat
  ta_types :: "(string \<times> nat) list"
  ta_tags :: "(string \<times> nat) list"
  ta_files :: "(string \<times> string \<times> string list) list"

fun analyze_threat_items ::
  "item list option \<Rightarrow> nat list \<Rightarrow> threat_analysis \<Rightarrow> threat_analysis result" where
  "analyze_threat_items d [] ta = Inr ta"
| "analyze_threat_items None (idx # rest) ta = Inl TypeError"
| "analyze_threat_items (Some d) (idx # rest) ta =
     (if idx < length d
      then (case item_type (d ! idx) of
              None \<Rightarrow> Inl (KeyError ''type'')
            | Some t \<Rightarrow>
                (case path (d ! idx) of
                   None \<Rightarrow> Inl (KeyError ''path'')
                 | Some p \<Rightarrow>
                     analyze_threat_items (Some d) rest
                       (ta\<lparr>ta_types := increment t (ta_types ta),
                           ta_tags := fold increment (get_tags (d ! idx)) (ta_tags ta),
                           ta_files := ta_files ta @ [(p, t, get_tags (d ! idx))]\<rparr>)))
      else Inl IndexError)"

definition analyze_threats :: "analyzer \<Rightarrow> threat_analysis result \<times> analyzer" where
  "analyze_threats st =
     (analyze_threat_items (data st) (threat_items st)
        \<lparr>ta_count = length (threat_items st), ta_types = [], ta_tags = [], ta_files = []\<rparr>,
      st)"

text \<open>
  \<^verbatim>\<open>extract_date_patterns\<close> reads the path of every item. The timeline it returns is
  used by no analysis and is not part of the model; its exceptions are.
\<close>

fun all_paths :: "item list \<Rightarrow> string list result" where
  "all_paths [] = Inr []"
| "all_paths (it # rest) =
     (case path it of
        None \<Rightarrow> Inl (KeyError ''path'')
      | Some p \<Rightarrow> (case all_paths rest of Inl e \<Rightarrow> Inl e | Inr ps \<Rightarrow> Inr (p # ps)))"

definition extract_date_patterns :: "analyzer \<Rightarrow> unit result \<times> analyzer" where
  "extract_date_patterns st =
     (case data st of
        None \<Rightarrow> (Inl TypeError, st)
      | Some d \<Rightarrow> (case all_paths d of Inl e \<Rightarrow> (Inl e, st) | Inr ps \<Rightarrow> (Inr (), st)))"

text \<open>\<^verbatim>\<open>[self.data[idx]['path'] for idx in self.threat_items]\<close>.\<close>

fun threat_paths_of :: "item list \<Rightarrow> nat list \<Rightarrow> string list result" where
  "threat_paths_of d [] = Inr []"
| "threat_paths_of d (idx # rest) =
     (if idx < length d
      then (case path (d ! idx) of
              None \<Rightarrow> Inl (KeyError ''path'')
            | Some p \<Rightarrow>
                (case threat_paths_of d rest of Inl e \<Rightarrow> Inl e | Inr ps \<Rightarrow> Inr (p # ps)))
      else Inl IndexError)"

definition weapon_tag_words :: "string list" where
  "weapon_tag_words = [''rifle'', ''revolver'', ''mask'', ''bulletproof'']"

record report =
  total_items :: nat
  n_threat_items :: nat
  weapon_related_items :: nat
  weapon_related_tags :: "string list"
  related_files :: "string set"
  key_content_keywords :: "(string \<times> string list) list"
  tag_connections :: cooccurrence_t
  content_similarities :: "similarity_edge list"

text \<open>
  The part of \<^verbatim>\<open>generate_threat_report\<close> after the analyses have run.
  \<^verbatim>\<open>list(set(related_files))\<close> is a list without duplicates in an order the language
  leaves open, here the set itself.
\<close>

definition make_report ::
  "item list \<Rightarrow> nat list \<Rightarrow> shared_tags_t \<Rightarrow> cooccurrence_t \<Rightarrow> content_analysis \<Rightarrow>
   threat_analysis \<Rightarrow> report result" where
  "make_report d threats shared_tags tag_cooccurrence ca ta =
     (let weapon_tags =
            filter (\<lambda>tag. list_ex (\<lambda>w. py_in w (lower tag)) weapon_tag_words)
              (map fst (ta_tags ta));
          related =
            concat (map (\<lambda>tag. case map_of shared_tags tag of None \<Rightarrow> [] | Some files \<Rightarrow> files)
                      weapon_tags)
      in case threat_paths_of d threats of
           Inl e \<Rightarrow> Inl e
         | Inr threat_paths \<Rightarrow>
             Inr \<lparr>total_items = length d,
                  n_threat_items = length threats,
                  weapon_related_items =
                    length (filter (\<lambda>it. list_ex (\<lambda>tag. tag \<in> set weapon_tags) (get_tags it)) d),
                  weapon_related_tags = weapon_tags,
                  related_files = set related,
                  key_content_keywords = keyword_occurrences ca,
                  tag_connections = tag_cooccurrence,
                  content_similarities =
                    filter (\<lambda>sim. file1 sim \<in> set threat_paths \<or> file2 sim \<in> set threat_paths)
                      (content_similarity ca)\<rparr>)"

text \<open>\<^verbatim>\<open>not self.tag_graph\<close>: a graph is false when it has no node.\<close>

definition no_graph :: "analyzer \<Rightarrow> bool" where
  "no_graph st = (case tag_graph st of None \<Rightarrow> True | Some G \<Rightarrow> nodes G = [])"

definition ensure_correlations :: "analyzer \<Rightarrow> unit result \<times> analyzer" where
  "ensure_correlations st =
     (if correlations st = None
      then (case find_tag_correlations st of
              (Inl e, st') \<Rightarrow> (Inl e, st')
            | (Inr r, st') \<Rightarrow> (Inr (), st'))
      else (Inr (), st))"

definition ensure_graph ::
  "(graph \<Rightarrow> string list list result) \<Rightarrow> analyzer \<Rightarrow> unit result \<times> analyzer" where
  "ensure_graph gmc st =
     (if no_graph st
      then (case build_tag_graph gmc st of
              (Inl e, st') \<Rightarrow> (Inl e, st')
            | (Inr r, st') \<Rightarrow> (Inr (), st'))
      else (Inr (), st))"

definition run_analyses :: "analyzer \<Rightarrow> report result" where
  "run_analyses st =
     (case fst (analyze_content st) of
        Inl e \<Rightarrow> Inl e
      | Inr ca \<Rightarrow>
          (case fst (extract_date_patterns st) of
             Inl e \<Rightarrow> Inl e
           | Inr u \<Rightarrow>
               (case fst (analyze_threats st) of
                  Inl e \<Rightarrow> Inl e
                | Inr ta \<Rightarrow>
                    (case (data st, correlations st) of
                       (Some d, Some (shared_tags, tag_cooccurrence)) \<Rightarrow>
                         make_report d (threat_items st) shared_tags tag_cooccurrence ca ta
                     | (None, c) \<Rightarrow> Inl TypeError
                     | (Some d, None) \<Rightarrow> Inl (KeyError ''shared_tags'')))))"

definition generate_threat_report ::
  "(graph \<Rightarrow> string list list result) \<Rightarrow> analyzer \<Rightarrow> report result \<times> analyzer" where
  "generate_threat_report gmc st =
     (case ensure_correlations st of
        (Inl e, st1) \<Rightarrow> (Inl e, st1)
      | (Inr u, st1) \<Rightarrow>
          (case ensure_graph gmc st1 of
             (Inl e, st2) \<Rightarrow> (Inl e, st2)
           | (Inr u', st2) \<Rightarrow> (run_analyses st2, st2)))"

subsection \<open>The pipeline\<close>

record results =
  threat_report :: report
  tag_correlations :: "shared_tags_t \<times> cooccurrence_t"
  content_analysis_result :: content_analysis
  network_stats :: graph_stats

text \<open>
  \<^verbatim>\<open>process_metadata\<close> up to the rendering of the image, which is outside the model: a
  fresh analyzer, the load and the four analyses in the order of the source. The
  session is returned beside the result.
\<close>

definition process_metadata ::
  "(graph \<Rightarrow> string list list result) \<Rightarrow> item list \<Rightarrow> results result \<times> analyzer" where
  "process_metadata gmc json_data =
     (case load_json_data json_data init of
        (Inl e, st1) \<Rightarrow> (Inl e, st1)
      | (Inr u, st1) \<Rightarrow>
          (case find_tag_correlations st1 of
             (Inl e, st2) \<Rightarrow> (Inl e, st2)
           | (Inr tc, st2) \<Rightarrow>
               (case build_tag_graph gmc st2 of
                  (Inl e, st3) \<Rightarrow> (Inl e, st3)
                | (Inr na, st3) \<Rightarrow>
                    (case analyze_content st3 of
                       (Inl e, st4) \<Rightarrow> (Inl e, st4)
                     | (Inr ca, st4) \<Rightarrow>
                         (case generate_threat_report gmc st4 of
                            (Inl e, st5) \<Rightarrow> (Inl e, st5)
                          | (Inr rep, st5) \<Rightarrow>
                              (Inr \<lparr>threat_report = rep, tag_correlations = tc,
                                    content_analysis_result = ca,
                                    network_stats = snd na\<rparr>, st5))))))"

section \<open>Specification-side definitions\<close>

text \<open>The indices the categorization loop appends for a list of records that all have
  a path, counted from \<open>idx\<close>.\<close>

definition threat_of :: "nat \<Rightarrow> item list \<Rightarrow> nat list" where
  "threat_of idx xs =
     map fst (filter (\<lambda>(i, it). classify it = Inr True) (enumerate idx xs))"

definition safe_of :: "nat \<Rightarrow> item list \<Rightarrow> nat list" where
  "safe_of idx xs =
     map fst (filter (\<lambda>(i, it). classify it = Inr False) (enumerate idx xs))"

text \<open>
  The decision order of the categorizer as the specification words it (section 4.2):
  six checks, the first that applies decides; \<^const>\<open>True\<close> stands for threat. A
  case-insensitive substring check compares the lower-cased forms.
\<close>

definition icontains :: "string \<Rightarrow> string \<Rightarrow> bool" where
  "icontains sub s = py_in (lower sub) (lower s)"

definition spec_category :: "string \<Rightarrow> string \<Rightarrow> string list \<Rightarrow> bool" where
  "spec_category p c ts =
     (if icontains ''_threat'' p then True
      else if icontains ''threat'' c then True
      else if icontains ''_safe'' p then False
      else if list_ex (\<lambda>w. icontains w c)
                [''bomb'', ''attack'', ''explosive'', ''threat'', ''terrorist'']
      then True
      else if list_ex (\<lambda>w. icontains w (str_list ts))
                [''assault rifle'', ''rifle'', ''revolver'', ''weapon'', ''bulletproof'']
      then True
      else False)"

text \<open>The two records of the example of the specification (section 8).\<close>

definition example_a :: item where
  "example_a =
     \<lparr>path = Some ''a_threat.txt'', item_type = Some ''file'',
      content = Some ''planning an attack'', tags = Some [''rifle'', ''mask'']\<rparr>"

definition example_b :: item where
  "example_b =
     \<lparr>path = Some ''b_safe.txt'', item_type = Some ''file'',
      content = Some ''grocery list'', tags = Some [''food'']\<rparr>"

definition example_records :: "item list" where
  "example_records = [example_a, example_b]"

text \<open>A single record without tags, and the graph of the two example records.\<close>

definition lone_record :: item where
  "lone_record = \<lparr>path = Some ''a.txt'', item_type = Some ''file'', content = None, tags = None\<rparr>"

definition lone_graph :: graph where
  "lone_graph =
     \<lparr>nodes = [(''a.txt'',
                 \<lparr>node_kind = ''file'', file_type = Some ''file'', is_threat = Some False\<rparr>)],
      edges = []\<rparr>"

definition tag_attrs :: node_attrs where
  "tag_attrs = \<lparr>node_kind = ''tag'', file_type = None, is_threat = None\<rparr>"

definition example_graph :: graph where
  "example_graph =
     \<lparr>nodes =
        [(''a_threat.txt'',
            \<lparr>node_kind = ''file'', file_type = Some ''file'', is_threat = Some True\<rparr>),
         (''rifle'', tag_attrs), (''mask'', tag_attrs),
         (''b_safe.txt'',
            \<lparr>node_kind = ''file'', file_type = Some ''file'', is_threat = Some False\<rparr>),
         (''food'', tag_attrs)],
      edges =
        [(''a_threat.txt'', ''rifle''), (''a_threat.txt'', ''mask''), (''b_safe.txt'', ''food'')]\<rparr>"

text \<open>A community detection that puts every node in a community of its own, as the
  merging of section 4.4 does on a graph without edges, one that raises on every graph,
  and one that returns the two connected components of the example graph.\<close>

definition singletons :: "graph \<Rightarrow> string list list result" where
  "singletons G = Inr (map (\<lambda>(n, a). [n]) (nodes G))"

definition always_raises :: "graph \<Rightarrow> string list list result" where
  "always_raises G = Inl ZeroDivisionError"

definition example_communities :: "graph \<Rightarrow> string list list result" where
  "example_communities G = Inr [[''a_threat.txt'', ''rifle'', ''mask''], [''b_safe.txt'', ''food'']]"

text \<open>The session after the example records are loaded, and what the analyses find
  in it.\<close>

definition example_session :: analyzer where
  "example_session =
     \<lparr>data = Some example_records, threat_items = [0], safe_items = [1], correlations = None,
      tag_graph = None\<rparr>"

definition example_cooccurrence :: cooccurrence_t where
  "example_cooccurrence = [((''mask'', ''rifle''), 1)]"

definition example_content :: content_analysis where
  "example_content =
     \<lparr>keyword_occurrences = [(''attack'', [''a_threat.txt'']), (''planning'', [''a_threat.txt''])],
      content_similarity = []\<rparr>"

definition example_report :: report where
  "example_report =
     \<lparr>total_items = 2, n_threat_items = 1, weapon_related_items = 1,
      weapon_related_tags = [''rifle'', ''mask''], related_files = {},
      key_content_keywords = keyword_occurrences example_content,
      tag_connections = example_cooccurrence, content_similarities = []\<rparr>"







text \<open>
  The tag list of a file: the tags of all records with that path, in the order of the
  records. The files of a record set are the paths with a tag, and the files that hold
  both of two tags are counted by the co-occurrence map when no tag list has a
  duplicate.
\<close>

definition tags_of_file :: "item list \<Rightarrow> string \<Rightarrow> string list" where
  "tags_of_file d p = concat (map get_tags (filter (\<lambda>it. path it = Some p) d))"

definition tagged_files :: "item list \<Rightarrow> string set" where
  "tagged_files d = {p. tags_of_file d p \<noteq> []}"

definition files_with_both :: "item list \<Rightarrow> string \<Rightarrow> string \<Rightarrow> string set" where
  "files_with_both d a b = {p. a \<in> set (tags_of_file d p) \<and> b \<in> set (tags_of_file d p)}"

definition pair_positions :: "item list \<Rightarrow> string \<times> string \<Rightarrow> nat" where
  "pair_positions d k = (\<Sum>p\<in>tagged_files d. count_list (tag_pairs (tags_of_file d p)) k)"

definition lookup_list :: "('k \<times> 'v list) list \<Rightarrow> 'k \<Rightarrow> 'v list" where
  "lookup_list m k = (case map_of m k of None \<Rightarrow> [] | Some vs \<Rightarrow> vs)"

text \<open>A record whose tag list names a tag twice.\<close>

definition dup_records :: "item list" where
  "dup_records =
     [\<lparr>path = Some ''f.txt'', item_type = Some ''file'', content = None,
       tags = Some [''a'', ''a'', ''b'']\<rparr>]"

text \<open>A record without a path.\<close>

definition no_path_record :: item where
  "no_path_record = \<lparr>path = None, item_type = None, content = None, tags = None\<rparr>"

section \<open>Character tables\<close>

text \<open>The character functions on the characters of the texts evaluated below.\<close>

lemma lower_char_table:
  "lower_char (CHR ''a'') = CHR ''a''"
  "lower_char (CHR ''b'') = CHR ''b''"
  "lower_char (CHR ''c'') = CHR ''c''"
  "lower_char (CHR ''d'') = CHR ''d''"
  "lower_char (CHR ''e'') = CHR ''e''"
  "lower_char (CHR ''f'') = CHR ''f''"
  "lower_char (CHR ''g'') = CHR ''g''"
  "lower_char (CHR ''h'') = CHR ''h''"
  "lower_char (CHR ''i'') = CHR ''i''"
  "lower_char (CHR ''j'') = CHR ''j''"
  "lower_char (CHR ''k'') = CHR ''k''"
  "lower_char (CHR ''l'') = CHR ''l''"
  "lower_char (CHR ''m'') = CHR ''m''"
  "lower_char (CHR ''n'') = CHR ''n''"
  "lower_char (CHR ''o'') = CHR ''o''"
  "lower_char (CHR ''p'') = CHR ''p''"
  "lower_char (CHR ''q'') = CHR ''q''"
  "lower_char (CHR ''r'') = CHR ''r''"
  "lower_char (CHR ''s'') = CHR ''s''"
  "lower_char (CHR ''t'') = CHR ''t''"
  "lower_char (CHR ''u'') = CHR ''u''"
  "lower_char (CHR ''v'') = CHR ''v''"
  "lower_char (CHR ''w'') = CHR ''w''"
  "lower_char (CHR ''x'') = CHR ''x''"
  "lower_char (CHR ''y'') = CHR ''y''"
  "lower_char (CHR ''z'') = CHR ''z''"
  "lower_char (CHR ''0'') = CHR ''0''"
  "lower_char (CHR ''1'') = CHR ''1''"
  "lower_char (CHR ''2'') = CHR ''2''"
  "lower_char (CHR ''3'') = CHR ''3''"
  "lower_char (CHR ''4'') = CHR ''4''"
  "lower_char (CHR ''5'') = CHR ''5''"
  "lower_char (CHR ''6'') = CHR ''6''"
  "lower_char (CHR ''7'') = CHR ''7''"
  "lower_char (CHR ''8'') = CHR ''8''"
  "lower_char (CHR ''9'') = CHR ''9''"
  "lower_char (CHR '' '') = CHR '' ''"
  "lower_char (CHR ''_'') = CHR ''_''"
  "lower_char (CHR ''-'') = CHR ''-''"
  "lower_char (CHR ''+'') = CHR ''+''"
  "lower_char (CHR ''.'') = CHR ''.''"
  "lower_char (CHR ''@'') = CHR ''@''"
  "lower_char (CHR '':'') = CHR '':''"
  "lower_char (CHR ''/'') = CHR ''/''"
  "lower_char (CHR '','') = CHR '',''"
  "lower_char (CHR ''!'') = CHR ''!''"
  "lower_char (CHR 0x27) = CHR 0x27"
  "lower_char (CHR ''['') = CHR ''[''"
  "lower_char (CHR '']'') = CHR '']''"
  by code_simp+

lemma is_word_table:
  "is_word (CHR ''a'') = True"
  "is_word (CHR ''b'') = True"
  "is_word (CHR ''c'') = True"
  "is_word (CHR ''d'') = True"
  "is_word (CHR ''e'') = True"
  "is_word (CHR ''f'') = True"
  "is_word (CHR ''g'') = True"
  "is_word (CHR ''h'') = True"
  "is_word (CHR ''i'') = True"
  "is_word (CHR ''j'') = True"
  "is_word (CHR ''k'') = True"
  "is_word (CHR ''l'') = True"
  "is_word (CHR ''m'') = True"
  "is_word (CHR ''n'') = True"
  "is_word (CHR ''o'') = True"
  "is_word (CHR ''p'') = True"
  "is_word (CHR ''q'') = True"
  "is_word (CHR ''r'') = True"
  "is_word (CHR ''s'') = True"
  "is_word (CHR ''t'') = True"
  "is_word (CHR ''u'') = True"
  "is_word (CHR ''v'') = True"
  "is_word (CHR ''w'') = True"
  "is_word (CHR ''x'') = True"
  "is_word (CHR ''y'') = True"
  "is_word (CHR ''z'') = True"
  "is_word (CHR ''0'') = True"
  "is_word (CHR ''1'') = True"
  "is_word (CHR ''2'') = True"
  "is_word (CHR ''3'') = True"
  "is_word (CHR ''4'') = True"
  "is_word (CHR ''5'') = True"
  "is_word (CHR ''6'') = True"
  "is_word (CHR ''7'') = True"
  "is_word (CHR ''8'') = True"
  "is_word (CHR ''9'') = True"
  "is_word (CHR '' '') = False"
  "is_word (CHR ''_'') = True"
  "is_word (CHR ''-'') = False"
  "is_word (CHR ''+'') = False"
  "is_word (CHR ''.'') = False"
  "is_word (CHR ''@'') = False"
  "is_word (CHR '':'') = False"
  "is_word (CHR ''/'') = False"
  "is_word (CHR '','') = False"
  "is_word (CHR ''!'') = False"
  "is_word (CHR 0x27) = False"
  "is_word (CHR ''['') = False"
  "is_word (CHR '']'') = False"
  by (simp_all add: is_word_def ascii_alnum_def code_def)

lemma is_digit_table:
  "is_digit (CHR ''a'') = False"
  "is_digit (CHR ''b'') = False"
  "is_digit (CHR ''c'') = False"
  "is_digit (CHR ''d'') = False"
  "is_digit (CHR ''e'') = False"
  "is_digit (CHR ''f'') = False"
  "is_digit (CHR ''g'') = False"
  "is_digit (CHR ''h'') = False"
  "is_digit (CHR ''i'') = False"
  "is_digit (CHR ''j'') = False"
  "is_digit (CHR ''k'') = False"
  "is_digit (CHR ''l'') = False"
  "is_digit (CHR ''m'') = False"
  "is_digit (CHR ''n'') = False"
  "is_digit (CHR ''o'') = False"
  "is_digit (CHR ''p'') = False"
  "is_digit (CHR ''q'') = False"
  "is_digit (CHR ''r'') = False"
  "is_digit (CHR ''s'') = False"
  "is_digit (CHR ''t'') = False"
  "is_digit (CHR ''u'') = False"
  "is_digit (CHR ''v'') = False"
  "is_digit (CHR ''w'') = False"
  "is_digit (CHR ''x'') = False"
  "is_digit (CHR ''y'') = False"
  "is_digit (CHR ''z'') = False"
  "is_digit (CHR ''0'') = True"
  "is_digit (CHR ''1'') = True"
  "is_digit (CHR ''2'') = True"
  "is_digit (CHR ''3'') = True"
  "is_digit (CHR ''4'') = True"
  "is_digit (CHR ''5'') = True"
  "is_digit (CHR ''6'') = True"
  "is_digit (CHR ''7'') = True"
  "is_digit (CHR ''8'') = True"
  "is_digit (CHR ''9'') = True"
  "is_digit (CHR '' '') = False"
  "is_digit (CHR ''_'') = False"
  "is_digit (CHR ''-'') = False"
  "is_digit (CHR ''+'') = False"
  "is_digit (CHR ''.'') = False"
  "is_digit (CHR ''@'') = False"
  "is_digit (CHR '':'') = False"
  "is_digit (CHR ''/'') = False"
  "is_digit (CHR '','') = False"
  "is_digit (CHR ''!'') = False"
  "is_digit (CHR 0x27) = False"
  "is_digit (CHR ''['') = False"
  "is_digit (CHR '']'') = False"
  by (simp_all add: is_digit_def code_def)

lemma is_space_table:
  "is_space (CHR ''a'') = False"
  "is_space (CHR ''b'') = False"
  "is_space (CHR ''c'') = False"
  "is_space (CHR ''d'') = False"
  "is_space (CHR ''e'') = False"
  "is_space (CHR ''f'') = False"
  "is_space (CHR ''g'') = False"
  "is_space (CHR ''h'') = False"
  "is_space (CHR ''i'') = False"
  "is_space (CHR ''j'') = False"
  "is_space (CHR ''k'') = False"
  "is_space (CHR ''l'') = False"
  "is_space (CHR ''m'') = False"
  "is_space (CHR ''n'') = False"
  "is_space (CHR ''o'') = False"
  "is_space (CHR ''p'') = False"
  "is_space (CHR ''q'') = False"
  "is_space (CHR ''r'') = False"
  "is_space (CHR ''s'') = False"
  "is_space (CHR ''t'') = False"
  "is_space (CHR ''u'') = False"
  "is_space (CHR ''v'') = False"
  "is_space (CHR ''w'') = False"
  "is_space (CHR ''x'') = False"
  "is_space (CHR ''y'') = False"
  "is_space (CHR ''z'') = False"
  "is_space (CHR ''0'') = False"
  "is_space (CHR ''1'') = False"
  "is_space (CHR ''2'') = False"
  "is_space (CHR ''3'') = False"
  "is_space (CHR ''4'') = False"
  "is_space (CHR ''5'') = False"
  "is_space (CHR ''6'') = False"
  "is_space (CHR ''7'') = False"
  "is_space (CHR ''8'') = False"
  "is_space (CHR ''9'') = False"
  "is_space (CHR '' '') = True"
  "is_space (CHR ''_'') = False"
  "is_space (CHR ''-'') = False"
  "is_space (CHR ''+'') = False"
  "is_space (CHR ''.'') = False"
  "is_space (CHR ''@'') = False"
  "is_space (CHR '':'') = False"
  "is_space (CHR ''/'') = False"
  "is_space (CHR '','') = False"
  "is_space (CHR ''!'') = False"
  "is_space (CHR 0x27) = False"
  "is_space (CHR ''['') = False"
  "is_space (CHR '']'') = False"
  by (simp_all add: is_space_def code_def)

lemma ascii_alnum_table:
  "ascii_alnum (CHR ''a'') = True"
  "ascii_alnum (CHR ''b'') = True"
  "ascii_alnum (CHR ''c'') = True"
  "ascii_alnum (CHR ''d'') = True"
  "ascii_alnum (CHR ''e'') = True"
  "ascii_alnum (CHR ''f'') = True"
  "ascii_alnum (CHR ''g'') = True"
  "ascii_alnum (CHR ''h'') = True"
  "ascii_alnum (CHR ''i'') = True"
  "ascii_alnum (CHR ''j'') = True"
  "ascii_alnum (CHR ''k'') = True"
  "ascii_alnum (CHR ''l'') = True"
  "ascii_alnum (CHR ''m'') = True"
  "ascii_alnum (CHR ''n'') = True"
  "ascii_alnum (CHR ''o'') = True"
  "ascii_alnum (CHR ''p'') = True"
  "ascii_alnum (CHR ''q'') = True"
  "ascii_alnum (CHR ''r'') = True"
  "ascii_alnum (CHR ''s'') = True"
  "ascii_alnum (CHR ''t'') = True"
  "ascii_alnum (CHR ''u'') = True"
  "ascii_alnum (CHR ''v'') = True"
  "ascii_alnum (CHR ''w'') = True"
  "ascii_alnum (CHR ''x'') = True"
  "ascii_alnum (CHR ''y'') = True"
  "ascii_alnum (CHR ''z'') = True"
  "ascii_alnum (CHR ''0'') = True"
  "ascii_alnum (CHR ''1'') = True"
  "ascii_alnum (CHR ''2'') = True"
  "ascii_alnum (CHR ''3'') = True"
  "ascii_alnum (CHR ''4'') = True"
  "ascii_alnum (CHR ''5'') = True"
  "ascii_alnum (CHR ''6'') = True"
  "ascii_alnum (CHR ''7'') = True"
  "ascii_alnum (CHR ''8'') = True"
  "ascii_alnum (CHR ''9'') = True"
  "ascii_alnum (CHR '' '') = False"
  "ascii_alnum (CHR ''_'') = False"
  "ascii_alnum (CHR ''-'') = False"
  "ascii_alnum (CHR ''+'') = False"
  "ascii_alnum (CHR ''.'') = False"
  "ascii_alnum (CHR ''@'') = False"
  "ascii_alnum (CHR '':'') = False"
  "ascii_alnum (CHR ''/'') = False"
  "ascii_alnum (CHR '','') = False"
  "ascii_alnum (CHR ''!'') = False"
  "ascii_alnum (CHR 0x27) = False"
  "ascii_alnum (CHR ''['') = False"
  "ascii_alnum (CHR '']'') = False"
  by (simp_all add: ascii_alnum_def code_def)

lemmas char_tables =
  lower_char_table is_word_table is_digit_table is_space_table ascii_alnum_table

section \<open>Categorization\<close>

lemma classify_path: "path it \<noteq> None \<Longrightarrow> classify it = Inr True \<or> classify it = Inr False"
  by (cases "path it") (simp_all add: classify_def)

lemma classify_no_path: "path it = None \<Longrightarrow> classify it = Inl (KeyError ''path'')"
  by (simp add: classify_def)

lemma categorize_from_prefix:
  "\<forall>it\<in>set xs. path it \<noteq> None \<Longrightarrow>
   categorize_from idx (xs @ ys) st =
   categorize_from (idx + length xs) ys
     (st\<lparr>threat_items := threat_items st @ threat_of idx xs,
         safe_items := safe_items st @ safe_of idx xs\<rparr>)"
proof (induction xs arbitrary: idx st)
  case Nil
  then show ?case by (simp add: threat_of_def safe_of_def)
next
  case (Cons x xs)
  from Cons.prems have px: "path x \<noteq> None" and rest: "\<forall>it\<in>set xs. path it \<noteq> None"
    by simp_all
  from classify_path[OF px] show ?case
  proof
    assume t: "classify x = Inr True"
    show ?thesis using Cons.IH[OF rest] t by (simp add: threat_of_def safe_of_def)
  next
    assume f: "classify x = Inr False"
    show ?thesis using Cons.IH[OF rest] f by (simp add: threat_of_def safe_of_def)
  qed
qed

lemma set_threat_of:
  "set (threat_of idx xs) =
   {i. idx \<le> i \<and> i < idx + length xs \<and> classify (xs ! (i - idx)) = Inr True}"
  by (auto simp: threat_of_def in_set_enumerate_eq image_iff)

lemma set_safe_of:
  "set (safe_of idx xs) =
   {i. idx \<le> i \<and> i < idx + length xs \<and> classify (xs ! (i - idx)) = Inr False}"
  by (auto simp: safe_of_def in_set_enumerate_eq image_iff)

lemma partition_disjoint: "set (threat_of 0 xs) \<inter> set (safe_of 0 xs) = {}"
  by (auto simp: set_threat_of set_safe_of)

lemma partition_cover:
  assumes "\<forall>it\<in>set xs. path it \<noteq> None"
  shows "set (threat_of 0 xs) \<union> set (safe_of 0 xs) = {..<length xs}"
proof -
  have "\<And>i. i < length xs \<Longrightarrow> classify (xs ! i) = Inr True \<or> classify (xs ! i) = Inr False"
    using assms classify_path by simp
  then show ?thesis
    by (auto simp: set_threat_of set_safe_of)
qed

lemma load_all_paths:
  assumes "\<forall>it\<in>set d. path it \<noteq> None"
  shows "load_json_data d st =
         (Inr (), st\<lparr>data := Some d, threat_items := threat_items st @ threat_of 0 d,
                     safe_items := safe_items st @ safe_of 0 d\<rparr>)"
  using categorize_from_prefix[OF assms, of 0 "[]" "st\<lparr>data := Some d\<rparr>"]
  by (simp add: load_json_data_def categorize_items_def)

lemma load_missing_path:
  assumes "\<forall>it\<in>set xs. path it \<noteq> None" and "path x = None"
  shows "load_json_data (xs @ x # ys) st =
         (Inl (KeyError ''path''),
          st\<lparr>data := Some (xs @ x # ys), threat_items := threat_items st @ threat_of 0 xs,
             safe_items := safe_items st @ safe_of 0 xs\<rparr>)"
  using categorize_from_prefix[OF assms(1), of 0 "x # ys" "st\<lparr>data := Some (xs @ x # ys)\<rparr>"]
    classify_no_path[OF assms(2)]
  by (simp add: load_json_data_def categorize_items_def)

lemma classify_example_a: "classify example_a = Inr True"
  by (simp add: example_a_def classify_def lower_def char_tables)

lemma classify_example_b: "classify example_b = Inr False"
  by (simp add: example_b_def classify_def lower_def content_str_def char_tables)

lemma load_example:
  "load_json_data example_records init =
   (Inr (), init\<lparr>data := Some example_records, threat_items := [0], safe_items := [1]\<rparr>)"
  by (simp add: load_json_data_def categorize_items_def init_def example_records_def
      classify_example_a classify_example_b)

lemma load_example_then_no_path:
  "load_json_data (example_records @ [no_path_record]) init =
   (Inl (KeyError ''path''),
    init\<lparr>data := Some (example_records @ [no_path_record]), threat_items := [0],
         safe_items := [1]\<rparr>)"
  by (simp add: load_json_data_def categorize_items_def init_def example_records_def
      classify_example_a classify_example_b classify_no_path no_path_record_def)


section \<open>Claims about the categorizer\<close>

text \<open>
  C9 (as amended). A record sequence with a record that has no \<^verbatim>\<open>path\<close>: loading it into a
  fresh session raises \<^verbatim>\<open>KeyError\<close> at the first such record, and the records before it
  stay classified. The two index lists are then the ones that loading only the records
  before the first malformed one gives, so together they hold exactly the indices
  below it; they are empty only when the malformed record comes first.
\<close>

theorem missing_path_keeps_prefix:
  assumes "\<forall>it\<in>set xs. path it \<noteq> None" and "path x = None"
  shows "fst (load_json_data (xs @ x # ys) init) = Inl (KeyError ''path'') \<and>
         threat_items (snd (load_json_data (xs @ x # ys) init)) =
           threat_items (snd (load_json_data xs init)) \<and>
         safe_items (snd (load_json_data (xs @ x # ys) init)) =
           safe_items (snd (load_json_data xs init)) \<and>
         set (threat_items (snd (load_json_data (xs @ x # ys) init))) \<union>
           set (safe_items (snd (load_json_data (xs @ x # ys) init))) = {..<length xs}"
  using partition_cover[OF assms(1)]
  by (simp add: load_missing_path[OF assms] load_all_paths[OF assms(1)] init_def)

theorem missing_path_keeps_prefix_witness:
  "fst (load_json_data ([example_a] @ no_path_record # [example_b]) init) =
     Inl (KeyError ''path'') \<and>
   threat_items (snd (load_json_data ([example_a] @ no_path_record # [example_b]) init)) =
     threat_items (snd (load_json_data [example_a] init)) \<and>
   safe_items (snd (load_json_data ([example_a] @ no_path_record # [example_b]) init)) =
     safe_items (snd (load_json_data [example_a] init)) \<and>
   set (threat_items (snd (load_json_data ([example_a] @ no_path_record # [example_b]) init))) \<union>
     set (safe_items (snd (load_json_data ([example_a] @ no_path_record # [example_b]) init))) =
     {..<length [example_a]}"
proof -
  have h1: "\<forall>it\<in>set [example_a]. path it \<noteq> None"
    by (simp add: example_a_def)
  have h2: "path no_path_record = None"
    by (simp add: no_path_record_def)
  show ?thesis
    by (rule missing_path_keeps_prefix[OF h1 h2])
qed

text \<open>
  C9 as stated fails: on the two example records followed by a record without a path,
  the load raises, and the session holds index 0 as a threat and index 1 as safe.
\<close>

theorem missing_path_partial_classification:
  "fst (load_json_data (example_records @ [no_path_record]) init) = Inl (KeyError ''path'') \<and>
   threat_items (snd (load_json_data (example_records @ [no_path_record]) init)) = [0] \<and>
   safe_items (snd (load_json_data (example_records @ [no_path_record]) init)) = [1]"
  by (simp add: load_example_then_no_path)

lemma lower_literals:
  "lower ''_threat'' = ''_threat''" "lower ''threat'' = ''threat''" "lower ''_safe'' = ''_safe''"
  "lower ''bomb'' = ''bomb''" "lower ''attack'' = ''attack''" "lower ''explosive'' = ''explosive''"
  "lower ''terrorist'' = ''terrorist''" "lower ''assault rifle'' = ''assault rifle''"
  "lower ''rifle'' = ''rifle''" "lower ''revolver'' = ''revolver''" "lower ''weapon'' = ''weapon''"
  "lower ''bulletproof'' = ''bulletproof''"
  by (simp_all add: lower_def char_tables)

lemma classify_cascade:
  assumes "path it = Some p"
  shows "classify it = Inr (spec_category p (content_str it) (get_tags it))"
proof -
  have nc: "\<not> has_content it \<Longrightarrow> lower (content_str it) = []"
    by (cases "content it") (simp_all add: has_content_def content_str_def lower_def)
  show ?thesis
  proof (cases "has_content it")
    case True
    then show ?thesis using assms
      by (simp add: classify_def spec_category_def icontains_def lower_literals
          content_keywords_def weapon_words_def)
  next
    case False
    then show ?thesis using assms nc
      by (simp add: classify_def spec_category_def icontains_def lower_literals
          content_keywords_def weapon_words_def)
  qed
qed

text \<open>
  C2 (as amended). For every record with a path, the categorizer decides by the six
  case-insensitive substring checks of the specification, in their order, the first
  that applies: path contains \<^verbatim>\<open>_threat\<close>, content contains \<^verbatim>\<open>threat\<close>, path contains
  \<^verbatim>\<open>_safe\<close>, content contains one of the five content words, the tags rendered as text
  contain one of the five weapon words, otherwise safe. In particular a record whose
  path contains \<^verbatim>\<open>_safe\<close> but not \<^verbatim>\<open>_threat\<close> and whose content contains \<^verbatim>\<open>bomb\<close> but
  not \<^verbatim>\<open>threat\<close> is classified safe.
\<close>

theorem classify_first_match_wins:
  assumes "path it = Some p"
  shows "classify it = Inr (spec_category p (content_str it) (get_tags it)) \<and>
         (icontains ''_safe'' p \<and> \<not> icontains ''_threat'' p \<and>
          icontains ''bomb'' (content_str it) \<and> \<not> icontains ''threat'' (content_str it)
          \<longrightarrow> classify it = Inr False)"
  by (simp add: classify_cascade[OF assms] spec_category_def)

theorem classify_first_match_wins_witness:
  "classify \<lparr>path = Some ''x_safe.txt'', item_type = Some ''file'', content = Some ''bomb'',
             tags = None\<rparr> =
     Inr (spec_category ''x_safe.txt'' ''bomb'' []) \<and>
   classify \<lparr>path = Some ''x_safe.txt'', item_type = Some ''file'', content = Some ''bomb'',
             tags = None\<rparr> = Inr False"
proof -
  let ?r = "\<lparr>path = Some ''x_safe.txt'', item_type = Some ''file'', content = Some ''bomb'',
             tags = None\<rparr>"
  have p: "path ?r = Some ''x_safe.txt''"
    by simp
  have c: "content_str ?r = ''bomb''" and t: "get_tags ?r = []"
    by (simp_all add: content_str_def get_tags_def)
  have h: "icontains ''_safe'' ''x_safe.txt'' \<and> \<not> icontains ''_threat'' ''x_safe.txt'' \<and>
           icontains ''bomb'' ''bomb'' \<and> \<not> icontains ''threat'' ''bomb''"
    by (simp add: icontains_def lower_def char_tables)
  show ?thesis
    using classify_first_match_wins[OF p] h unfolding c t by blast
qed

text \<open>
  C2 as stated fails in its last sentence: a path that contains \<^verbatim>\<open>_safe\<close> may contain
  \<^verbatim>\<open>_threat\<close> as well, and the first check then decides. The record with the path
  \<^verbatim>\<open>x_safe_threat.txt\<close> and the content \<^verbatim>\<open>bomb\<close> is classified as a threat.
\<close>

theorem safe_marker_with_threat_marker:
  "icontains ''_safe'' ''x_safe_threat.txt'' \<and> icontains ''bomb'' ''bomb'' \<and>
   \<not> icontains ''threat'' ''bomb'' \<and>
   classify \<lparr>path = Some ''x_safe_threat.txt'', item_type = Some ''file'',
             content = Some ''bomb'', tags = None\<rparr> = Inr True"
  by (simp add: icontains_def classify_def lower_def content_str_def char_tables)

section \<open>Evaluating patterns\<close>

lemma iter_numeral:
  "iter f greedy lo (numeral k) cur =
     (let more = concat (map (iter f greedy (lo - 1) (pred_numeral k)) (f cur))
      in if 0 < lo then more else if greedy then more @ [cur] else cur # more)"
  by (simp add: numeral_eq_Suc)

lemmas re_simps =
  findall_def kw_def literal_i_def literal_def at_boundary_def plus_def opt_def one_of_def
  iter_numeral

lemmas entity_simps =
  detect_entities_def EMAIL_RE_def URL_RE_def PHONE_RE_def CREDIT_CARD_RE_def phone_sep_def



lemma keyword_hits_recruitment: "keyword_hits ''recruitment'' = []"
  by (simp add: keyword_hits_def COMPILED_THREATS_def re_simps char_tables)

lemma keyword_hits_card: "keyword_hits ''1234-5678-9012-3456'' = []"
  by (simp add: keyword_hits_def COMPILED_THREATS_def re_simps char_tables)

lemma detect_entities_card:
  "detect_entities ''1234-5678-9012-3456'' =
     [\<lparr>ent_type = ''phone'', ent_value = ''1234-5678-9012''\<rparr>,
      \<lparr>ent_type = ''credit_card'', ent_value = ''1234-5678-9012-3456''\<rparr>]"
  by (simp add: entity_simps re_simps char_tables)



lemma length_detect_entities:
  "length (detect_entities t) =
     length (findall EMAIL_RE t) + length (findall URL_RE t) + length (findall PHONE_RE t) +
     length (findall CREDIT_CARD_RE t)"
  by (simp add: detect_entities_def)

section \<open>A pattern that cannot match\<close>

lemma code_char_of: "n < 256 \<Longrightarrow> code (char_of n) = n"
  by (simp add: code_def)

lemma lower_t_is_word: "lower_char x = CHR ''t'' \<Longrightarrow> is_word x"
proof -
  assume a: "lower_char x = CHR ''t''"
  show "is_word x"
  proof (cases "(65 \<le> code x \<and> code x \<le> 90) \<or> (192 \<le> code x \<and> code x \<le> 222 \<and> code x \<noteq> 215)")
    case True
    then have "code x + 32 < 256"
      by auto
    then have "code (char_of (code x + 32)) = code x + 32"
      by (rule code_char_of)
    moreover from a True have "char_of (code x + 32) = CHR ''t''"
      by (simp add: lower_char_def Let_def)
    moreover have "code CHR ''t'' = 116"
      by (simp add: code_def)
    ultimately have "code x = 84"
      by simp
    then show ?thesis
      by (simp add: is_word_def ascii_alnum_def)
  next
    case False
    with a have "x = CHR ''t''"
      by (simp add: lower_char_def Let_def)
    then show ?thesis
      by (simp add: is_word_table)
  qed
qed

lemma lower_r_is_word: "lower_char x = CHR ''r'' \<Longrightarrow> is_word x"
proof -
  assume a: "lower_char x = CHR ''r''"
  show "is_word x"
  proof (cases "(65 \<le> code x \<and> code x \<le> 90) \<or> (192 \<le> code x \<and> code x \<le> 222 \<and> code x \<noteq> 215)")
    case True
    then have "code x + 32 < 256"
      by auto
    then have "code (char_of (code x + 32)) = code x + 32"
      by (rule code_char_of)
    moreover from a True have "char_of (code x + 32) = CHR ''r''"
      by (simp add: lower_char_def Let_def)
    moreover have "code CHR ''r'' = 114"
      by (simp add: code_def)
    ultimately have "code x = 82"
      by simp
    then show ?thesis
      by (simp add: is_word_def ascii_alnum_def)
  next
    case False
    with a have "x = CHR ''r''"
      by (simp add: lower_char_def Let_def)
    then show ?thesis
      by (simp add: is_word_table)
  qed
qed

lemma ends_literal_i_last:
  assumes "s \<noteq> []" and "e \<in> set (ends (literal_i s) cur)"
  shows "\<exists>x. fst e = Some x \<and> lower_char x = lower_char (last s)"
  using assms
proof (induction s arbitrary: cur)
  case Nil
  then show ?case by simp
next
  case (Cons c s)
  show ?case
  proof (cases s)
    case Nil
    with Cons.prems show ?thesis
      by (auto simp: literal_i_def split: list.splits if_splits)
  next
    case (Cons c' s')
    with Cons.prems obtain cur' where "e \<in> set (ends (literal_i s) cur')"
      by (auto simp: literal_i_def)
    with Cons.IH[of cur'] Cons show ?thesis
      by simp
  qed
qed

lemma ends_kw_after:
  assumes "s \<noteq> []" and "e \<in> set (ends (kw s) cur)"
  shows "at_boundary e \<and> (\<exists>x. fst e = Some x \<and> lower_char x = lower_char (last s))"
proof -
  from assms(2) obtain e' where "e' \<in> set (ends (literal_i s) cur)" "e \<in> set (ends WordB e')"
    by (auto simp: kw_def split: if_splits)
  then have "e = e'" "at_boundary e" "e \<in> set (ends (literal_i s) cur)"
    by (auto split: if_splits)
  with ends_literal_i_last[OF assms(1)] show ?thesis
    by blast
qed

lemma ends_literal_i_first:
  assumes "e \<in> set (ends (literal_i (c # s)) cur)"
  shows "\<exists>x rest. snd cur = x # rest \<and> lower_char x = lower_char c"
proof (cases "snd cur")
  case Nil
  with assms show ?thesis
    by (cases s) (auto simp: literal_i_def)
next
  case (Cons x rest)
  with assms show ?thesis
    by (cases s) (auto simp: literal_i_def split: if_splits)
qed

lemma ends_kw_before:
  assumes "e \<in> set (ends (kw (c # s)) cur)"
  shows "at_boundary cur \<and> (\<exists>x rest. snd cur = x # rest \<and> lower_char x = lower_char c)"
proof -
  from assms have b: "at_boundary cur"
    by (auto simp: kw_def split: if_splits)
  from assms have "ends (literal_i (c # s)) cur \<noteq> []"
    by (auto simp: kw_def split: if_splits)
  then obtain e' where "e' \<in> set (ends (literal_i (c # s)) cur)"
    by (meson all_not_in_conv set_empty)
  with ends_literal_i_first b show ?thesis
    by blast
qed

lemma merged_pattern_no_end: "ends (Seq (kw ''recruitment'') (kw ''rifle'')) cur = []"
proof (rule ccontr)
  assume "ends (Seq (kw ''recruitment'') (kw ''rifle'')) cur \<noteq> []"
  then obtain e where "e \<in> set (ends (Seq (kw ''recruitment'') (kw ''rifle'')) cur)"
    by (meson all_not_in_conv set_empty)
  then obtain m where m: "m \<in> set (ends (kw ''recruitment'') cur)"
    and e: "e \<in> set (ends (kw ''rifle'') m)"
    by auto
  from ends_kw_after[OF _ m] obtain x where
    b: "at_boundary m" and x: "fst m = Some x" "lower_char x = lower_char CHR ''t''"
    by auto
  from ends_kw_before[OF e] obtain y rest where
    y: "snd m = y # rest" "lower_char y = lower_char CHR ''r''"
    by auto
  from x have "is_word x"
    by (simp add: lower_char_table lower_t_is_word)
  moreover from y have "is_word y"
    by (simp add: lower_char_table lower_r_is_word)
  ultimately show False
    using b x y by (simp add: at_boundary_def)
qed

lemma findall_from_no_end:
  assumes "\<And>cur. ends r cur = []"
  shows "findall_from r b cur = []"
proof (induction "snd cur" arbitrary: b cur)
  case Nil
  then show ?case
    by (subst findall_from.simps) (simp add: assms)
next
  case (Cons c cs)
  from Cons(2) have s: "snd cur = c # cs"
    by simp
  have "findall_from r False (Some c, cs) = []"
    by (rule Cons(1)) simp
  then show ?case
    by (subst findall_from.simps) (simp add: assms s)
qed

lemma merged_pattern_never_matches:
  "findall (Seq (kw ''recruitment'') (kw ''rifle'')) t = []"
  unfolding findall_def by (rule findall_from_no_end) (rule merged_pattern_no_end)

section \<open>Claims about the keyword and entity matcher\<close>

text \<open>
  C7 (the code falls short of the claim). The claim wants the standalone word
  \<^verbatim>\<open>recruitment\<close> to trigger the category Terrorism. In the source the patterns for
  \<^verbatim>\<open>recruitment\<close> and \<^verbatim>\<open>rifle\<close> are one pattern, for want of a comma, and the text
  \<^verbatim>\<open>recruitment\<close> triggers no category and no keyword at all. The joined pattern
  matches in no text whatever: after \<^verbatim>\<open>recruitment\<close> it asks for a word boundary between
  two letters.
\<close>

theorem recruitment_not_detected:
  "detect_keywords ''recruitment'' = ([], []) \<and>
   ''Terrorism'' \<notin> set (fst (detect_keywords ''recruitment'')) \<and>
   (\<forall>t. findall (Seq (kw ''recruitment'') (kw ''rifle'')) t = [])"
  by (simp add: detect_keywords_def keyword_hits_recruitment merged_pattern_never_matches)

text \<open>
  C10. On the text \<^verbatim>\<open>1234-5678-9012-3456\<close> the digits \<^verbatim>\<open>1234-5678-9012\<close> are reported as a
  phone entity and, within the sixteen-digit number they start, as a credit-card entity
  too. Entities are never merged across types: the entity list is as long as the four
  lists of matches together, every entity adds 2 to the score, and the score of this
  text, which has no keyword match, is 2 + 2.
\<close>

theorem overlapping_entities_both_count:
  "detect_entities ''1234-5678-9012-3456'' =
     [\<lparr>ent_type = ''phone'', ent_value = ''1234-5678-9012''\<rparr>,
      \<lparr>ent_type = ''credit_card'', ent_value = ''1234-5678-9012-3456''\<rparr>] \<and>
   startswith ''1234-5678-9012-3456'' ''1234-5678-9012'' \<and>
   snd (detect_keywords ''1234-5678-9012-3456'') = [] \<and>
   (\<exists>a. analyze_entry [(''content'', JStr ''1234-5678-9012-3456'')] = Inr a \<and>
        score (predicted a) = 2 + 2 \<and> threat_detected (predicted a)) \<and>
   (\<forall>t. length (detect_entities t) =
        length (findall EMAIL_RE t) + length (findall URL_RE t) +
        length (findall PHONE_RE t) + length (findall CREDIT_CARD_RE t)) \<and>
   (\<forall>num_keys num_ents. compute_score num_keys (Suc num_ents) = compute_score num_keys num_ents + 2)"
  by (simp add: detect_entities_card length_detect_entities analyze_entry_def entry_text_def
      dict_get_def detect_keywords_def keyword_hits_card compute_score_def)







section \<open>Claims about the graph builder\<close>

lemma sort_key_short: "length xs \<le> 1 \<Longrightarrow> sort_key f xs = xs"
  by (cases xs) (simp_all)

lemma degree_centrality_small:
  "length (nodes G) < 2 \<Longrightarrow> degree_centrality G = map (\<lambda>(n, a). (n, 1)) (nodes G)"
  by (simp add: degree_centrality_def)

lemma top_central_small:
  assumes "length (nodes G) < 2"
  shows "take 5 (sort_key (\<lambda>x. - snd x) (degree_centrality G)) = map (\<lambda>(n, a). (n, 1)) (nodes G)"
proof -
  have "length (degree_centrality G) \<le> 1"
    using assms by (simp add: degree_centrality_small)
  then have "sort_key (\<lambda>x. - snd x) (degree_centrality G) = degree_centrality G"
    by (rule sort_key_short)
  then show ?thesis
    using assms by (simp add: degree_centrality_small)
qed

lemma build_tag_graph_returns:
  assumes "data st = Some d"
    and "add_items 0 d (threat_items st) empty_graph = Inr G"
  shows "build_tag_graph gmc st =
         (case gmc G of
            Inl e \<Rightarrow> (Inl e, st\<lparr>tag_graph := Some G\<rparr>)
          | Inr comms \<Rightarrow>
              (Inr (G, \<lparr>stat_nodes = length (nodes G), stat_edges = length (edges G),
                        top_central_nodes =
                          take 5 (sort_key (\<lambda>x. - snd x) (degree_centrality G)),
                        communities = length comms,
                        largest_community_size =
                          (case comms of [] \<Rightarrow> 0 | c # cs \<Rightarrow> length c)\<rparr>),
               st\<lparr>tag_graph := Some G\<rparr>))"
  using assms by (simp add: build_tag_graph_def Let_def)

lemma load_lone:
  "load_json_data [lone_record] init =
   (Inr (), init\<lparr>data := Some [lone_record], threat_items := [], safe_items := [0]\<rparr>)"
  by (simp add: load_json_data_def categorize_items_def init_def lone_record_def classify_def
      lower_def content_str_def has_content_def get_tags_def str_list_def char_tables
      weapon_words_def content_keywords_def)

lemma graph_lone: "add_items 0 [lone_record] [] empty_graph = Inr lone_graph"
proof -
  have "add_file_node ''a.txt'' ''file'' False empty_graph = lone_graph"
    by (simp add: empty_graph_def add_file_node_def has_node_def lone_graph_def)
  then show ?thesis
    by (simp add: lone_record_def get_tags_def add_tags_def)
qed

lemma build_lone:
  "build_tag_graph gmc (snd (load_json_data [lone_record] init)) =
   (case gmc lone_graph of
      Inl e \<Rightarrow> (Inl e, (snd (load_json_data [lone_record] init))\<lparr>tag_graph := Some lone_graph\<rparr>)
    | Inr comms \<Rightarrow>
        (Inr (lone_graph,
              \<lparr>stat_nodes = 1, stat_edges = 0, top_central_nodes = [(''a.txt'', 1)],
               communities = length comms,
               largest_community_size = (case comms of [] \<Rightarrow> 0 | c # cs \<Rightarrow> length c)\<rparr>),
         (snd (load_json_data [lone_record] init))\<lparr>tag_graph := Some lone_graph\<rparr>))"
proof -
  have d: "data (snd (load_json_data [lone_record] init)) = Some [lone_record]"
    by (simp add: load_lone)
  have t: "threat_items (snd (load_json_data [lone_record] init)) = []"
    by (simp add: load_lone)
  have g: "add_items 0 [lone_record] (threat_items (snd (load_json_data [lone_record] init)))
             empty_graph = Inr lone_graph"
    unfolding t by (rule graph_lone)
  have c: "take 5 (sort_key (\<lambda>x. - snd x) (degree_centrality lone_graph)) = [(''a.txt'', 1)]"
    by (simp add: degree_centrality_def lone_graph_def)
  have n: "length (nodes lone_graph) = 1" "length (edges lone_graph) = 0"
    by (simp_all add: lone_graph_def)
  show ?thesis
    unfolding build_tag_graph_returns[OF d g] c n by (rule refl)
qed

text \<open>
  C8 (as amended). The builder has no guard for small graphs. For every session whose
  records give a graph with fewer than two nodes, it raises exactly the error the
  community detection of the library raises on that graph, and otherwise returns
  statistics with as many communities as the library returns and one top-centrality
  entry, of centrality 1, for every node of the graph: none for the empty graph, one
  for a graph of one node.
\<close>

theorem small_graph_stats:
  assumes "data st = Some d"
    and "add_items 0 d (threat_items st) empty_graph = Inr G"
    and "length (nodes G) < 2"
  shows "(\<forall>e. gmc G = Inl e \<longrightarrow> fst (build_tag_graph gmc st) = Inl e) \<and>
         (\<forall>cs. gmc G = Inr cs \<longrightarrow>
            (\<exists>stats. fst (build_tag_graph gmc st) = Inr (G, stats) \<and>
               communities stats = length cs \<and>
               top_central_nodes stats = map (\<lambda>(n, a). (n, 1)) (nodes G) \<and>
               length (top_central_nodes stats) = length (nodes G)))"
  by (simp add: build_tag_graph_returns[OF assms(1,2)] top_central_small[OF assms(3)])

theorem small_graph_stats_witness:
  "fst (build_tag_graph always_raises (snd (load_json_data [lone_record] init))) =
     Inl ZeroDivisionError \<and>
   (\<exists>stats. fst (build_tag_graph singletons (snd (load_json_data [lone_record] init))) =
      Inr (lone_graph, stats) \<and>
      communities stats = length [[''a.txt'']] \<and>
      top_central_nodes stats = map (\<lambda>(n, a). (n, 1)) (nodes lone_graph) \<and>
      length (top_central_nodes stats) = length (nodes lone_graph))"
proof -
  let ?st = "snd (load_json_data [lone_record] init)"
  have d: "data ?st = Some [lone_record]"
    by (simp add: load_lone)
  have t: "threat_items ?st = []"
    by (simp add: load_lone)
  have g: "add_items 0 [lone_record] (threat_items ?st) empty_graph = Inr lone_graph"
    unfolding t by (rule graph_lone)
  have n: "length (nodes lone_graph) < 2"
    by (simp add: lone_graph_def)
  have c: "singletons lone_graph = Inr [[''a.txt'']]"
    by (simp add: singletons_def lone_graph_def)
  have r: "always_raises lone_graph = Inl ZeroDivisionError"
    by (simp add: always_raises_def)
  from small_graph_stats[OF d g n, of always_raises] r
  have "fst (build_tag_graph always_raises ?st) = Inl ZeroDivisionError"
    by blast
  moreover from small_graph_stats[OF d g n, of singletons] c
  have "\<exists>stats. fst (build_tag_graph singletons ?st) = Inr (lone_graph, stats) \<and>
      communities stats = length [[''a.txt'']] \<and>
      top_central_nodes stats = map (\<lambda>(n, a). (n, 1)) (nodes lone_graph) \<and>
      length (top_central_nodes stats) = length (nodes lone_graph)"
    by blast
  ultimately show ?thesis
    by (rule conjI)
qed

text \<open>
  C8 as stated fails on a single record without tags, whose graph has one node:
  whatever the community detection returns, the statistics do not have both zero
  communities and an empty top-centrality list, since that list holds the one node.
  With one community per node the builder returns one community and one entry.
\<close>

theorem one_node_graph_has_centrality_entry:
  "(\<forall>gmc. \<not> (\<exists>G stats.
       fst (build_tag_graph gmc (snd (load_json_data [lone_record] init))) = Inr (G, stats) \<and>
       communities stats = 0 \<and> top_central_nodes stats = [])) \<and>
   fst (build_tag_graph singletons (snd (load_json_data [lone_record] init))) =
       Inr (lone_graph, \<lparr>stat_nodes = 1, stat_edges = 0, top_central_nodes = [(''a.txt'', 1)],
                communities = 1, largest_community_size = 1\<rparr>)"
proof (intro conjI allI)
  fix gmc
  show "\<not> (\<exists>G stats.
       fst (build_tag_graph gmc (snd (load_json_data [lone_record] init))) = Inr (G, stats) \<and>
       communities stats = 0 \<and> top_central_nodes stats = [])"
    unfolding build_lone by (cases "gmc lone_graph") auto
next
  have c: "singletons lone_graph = Inr [[''a.txt'']]"
    by (simp add: singletons_def lone_graph_def)
  show "fst (build_tag_graph singletons (snd (load_json_data [lone_record] init))) =
       Inr (lone_graph, \<lparr>stat_nodes = 1, stat_edges = 0, top_central_nodes = [(''a.txt'', 1)],
                communities = 1, largest_community_size = 1\<rparr>)"
    unfolding build_lone c by simp
qed

section \<open>The example of the specification\<close>

lemma load_example_session: "load_json_data example_records init = (Inr (), example_session)"
  using load_example by (simp add: example_session_def init_def)

lemma index_example:
  "index_items example_records ([], []) =
   Inr ([(''rifle'', [''a_threat.txt'']), (''mask'', [''a_threat.txt'']),
         (''food'', [''b_safe.txt''])],
        [(''a_threat.txt'', [''rifle'', ''mask'']), (''b_safe.txt'', [''food''])])"
  by (simp add: example_records_def example_a_def example_b_def index_item_tags_def
      get_tags_def)

lemma find_example:
  assumes "data st = Some example_records"
  shows "find_tag_correlations st =
         (Inr ([], example_cooccurrence), st\<lparr>correlations := Some ([], example_cooccurrence)\<rparr>)"
  using assms
  by (simp add: find_tag_correlations_def index_example count_cooccurrence_def file_pairs_def
      sorted_pair_def example_cooccurrence_def Let_def)

lemma graph_example: "add_items 0 example_records [0] empty_graph = Inr example_graph"
proof -
  have a: "add_tags ''a_threat.txt'' [''rifle'', ''mask'']
             (add_file_node ''a_threat.txt'' ''file'' True empty_graph) =
           \<lparr>nodes = [(''a_threat.txt'',
                       \<lparr>node_kind = ''file'', file_type = Some ''file'', is_threat = Some True\<rparr>),
                     (''rifle'', tag_attrs), (''mask'', tag_attrs)],
            edges = [(''a_threat.txt'', ''rifle''), (''a_threat.txt'', ''mask'')]\<rparr>"
    by (simp add: add_tags_def add_file_node_def empty_graph_def has_node_def add_tag_node_def
        add_edge_def has_edge_def tag_attrs_def)
  have b: "add_tags ''b_safe.txt'' [''food'']
             (add_file_node ''b_safe.txt'' ''file'' False
               \<lparr>nodes = [(''a_threat.txt'',
                       \<lparr>node_kind = ''file'', file_type = Some ''file'', is_threat = Some True\<rparr>),
                     (''rifle'', tag_attrs), (''mask'', tag_attrs)],
                edges = [(''a_threat.txt'', ''rifle''), (''a_threat.txt'', ''mask'')]\<rparr>) =
           example_graph"
    by (simp add: add_tags_def add_file_node_def has_node_def add_tag_node_def
        add_edge_def has_edge_def tag_attrs_def example_graph_def)
  show ?thesis
    by (simp add: example_records_def example_a_def example_b_def get_tags_def a b)
qed

lemma words_example:
  "words ''planning an attack'' = {''planning'', ''an'', ''attack''}"
  "words ''grocery list'' = {''grocery'', ''list''}"
  by (simp_all add: words_def WORD_RE_def lower_def re_simps char_tables)

lemma collect_example:
  "collect_text example_records [0] example_records =
   Inr [\<lparr>ti_path = ''a_threat.txt'', ti_content = ''planning an attack'', ti_is_threat = True\<rparr>,
        \<lparr>ti_path = ''b_safe.txt'', ti_content = ''grocery list'', ti_is_threat = False\<rparr>]"
  by (simp add: example_records_def example_a_def example_b_def has_content_def content_str_def)

lemma analyze_content_example:
  assumes "data st = Some example_records" and "threat_items st = [0]"
  shows "analyze_content st = (Inr example_content, st)"
proof -
  have k: "keyword_occurrences_of
             [\<lparr>ti_path = ''a_threat.txt'', ti_content = ''planning an attack'', ti_is_threat = True\<rparr>,
              \<lparr>ti_path = ''b_safe.txt'', ti_content = ''grocery list'', ti_is_threat = False\<rparr>] =
           [(''attack'', [''a_threat.txt'']), (''planning'', [''a_threat.txt''])]"
    by (simp add: keyword_occurrences_of_def threat_keywords_def lower_def char_tables)
  have s: "similarity_pairs
             [\<lparr>ti_path = ''a_threat.txt'', ti_content = ''planning an attack'', ti_is_threat = True\<rparr>,
              \<lparr>ti_path = ''b_safe.txt'', ti_content = ''grocery list'', ti_is_threat = False\<rparr>] = []"
    by (simp add: compare_pair_def words_example Let_def)
  show ?thesis
    using assms
    by (simp add: analyze_content_def collect_example k s example_content_def
        del: similarity_pairs.simps)
qed

lemma analyze_threats_example:
  assumes "data st = Some example_records" and "threat_items st = [0]"
  shows "fst (analyze_threats st) =
         Inr \<lparr>ta_count = 1, ta_types = [(''file'', 1)], ta_tags = [(''rifle'', 1), (''mask'', 1)],
              ta_files = [(''a_threat.txt'', ''file'', [''rifle'', ''mask''])]\<rparr>"
  using assms
  by (simp add: analyze_threats_def example_records_def example_a_def get_tags_def)

lemma dates_example:
  assumes "data st = Some example_records"
  shows "fst (extract_date_patterns st) = Inr ()"
  using assms
  by (simp add: extract_date_patterns_def example_records_def example_a_def example_b_def)

lemma make_report_example:
  "make_report example_records [0] [] example_cooccurrence example_content
     \<lparr>ta_count = 1, ta_types = [(''file'', 1)], ta_tags = [(''rifle'', 1), (''mask'', 1)],
      ta_files = [(''a_threat.txt'', ''file'', [''rifle'', ''mask''])]\<rparr> = Inr example_report"
  by (simp add: make_report_def weapon_tag_words_def lower_def char_tables example_records_def
      example_a_def example_b_def get_tags_def example_report_def example_content_def Let_def)

lemma run_analyses_example:
  assumes "data st = Some example_records" and "threat_items st = [0]"
    and "correlations st = Some ([], example_cooccurrence)"
  shows "run_analyses st = Inr example_report"
  using assms make_report_example
  by (simp add: run_analyses_def analyze_content_example analyze_threats_example dates_example)

lemma report_example:
  assumes "data st = Some example_records" and "threat_items st = [0]"
    and "correlations st = Some ([], example_cooccurrence)" and "tag_graph st = Some example_graph"
  shows "generate_threat_report gmc st = (Inr example_report, st)"
  using assms
  by (simp add: generate_threat_report_def ensure_correlations_def ensure_graph_def no_graph_def
      example_graph_def run_analyses_example)

lemma process_example:
  "process_metadata gmc example_records =
   (case gmc example_graph of
      Inl e \<Rightarrow>
        (Inl e, example_session\<lparr>correlations := Some ([], example_cooccurrence),
                               tag_graph := Some example_graph\<rparr>)
    | Inr comms \<Rightarrow>
        (Inr \<lparr>threat_report = example_report, tag_correlations = ([], example_cooccurrence),
              content_analysis_result = example_content,
              network_stats =
                \<lparr>stat_nodes = length (nodes example_graph),
                 stat_edges = length (edges example_graph),
                 top_central_nodes =
                   take 5 (sort_key (\<lambda>x. - snd x) (degree_centrality example_graph)),
                 communities = length comms,
                 largest_community_size = (case comms of [] \<Rightarrow> 0 | c # cs \<Rightarrow> length c)\<rparr>\<rparr>,
         example_session\<lparr>correlations := Some ([], example_cooccurrence),
                        tag_graph := Some example_graph\<rparr>))"
proof -
  let ?st2 = "example_session\<lparr>correlations := Some ([], example_cooccurrence)\<rparr>"
  let ?st3 = "example_session\<lparr>correlations := Some ([], example_cooccurrence),
                        tag_graph := Some example_graph\<rparr>"
  have f: "find_tag_correlations example_session = (Inr ([], example_cooccurrence), ?st2)"
    by (rule find_example) (simp add: example_session_def)
  have d2: "data ?st2 = Some example_records"
    by (simp add: example_session_def)
  have g2: "add_items 0 example_records (threat_items ?st2) empty_graph = Inr example_graph"
    using graph_example by (simp add: example_session_def)
  have a: "analyze_content ?st3 = (Inr example_content, ?st3)"
    by (rule analyze_content_example) (simp_all add: example_session_def)
  have r: "generate_threat_report gmc ?st3 = (Inr example_report, ?st3)"
    by (rule report_example) (simp_all add: example_session_def)
  show ?thesis
    by (cases "gmc example_graph")
      (simp_all add: process_metadata_def load_example_session f
        build_tag_graph_returns[OF d2 g2] a r)
qed

text \<open>
  C6 (as amended). On the two example records the pipeline, when the community
  detection of the library returns, gives the threat index set {0} and the safe index
  set {1}, no shared tag, the weapon-related tags \<^verbatim>\<open>rifle\<close> and \<^verbatim>\<open>mask\<close>, and no related
  file: related files are gathered from the shared tags, of which there are none.
\<close>

theorem example_pipeline:
  assumes "gmc example_graph = Inr cs"
  shows "\<exists>res st. process_metadata gmc example_records = (Inr res, st) \<and>
           set (threat_items st) = {0} \<and> set (safe_items st) = {1} \<and>
           fst (tag_correlations res) = [] \<and>
           weapon_related_tags (threat_report res) = [''rifle'', ''mask''] \<and>
           related_files (threat_report res) = {}"
  using assms
  by (simp add: process_example example_session_def example_report_def)

theorem example_pipeline_witness:
  "\<exists>res st. process_metadata example_communities example_records = (Inr res, st) \<and>
           set (threat_items st) = {0} \<and> set (safe_items st) = {1} \<and>
           fst (tag_correlations res) = [] \<and>
           weapon_related_tags (threat_report res) = [''rifle'', ''mask''] \<and>
           related_files (threat_report res) = {}"
proof -
  have "example_communities example_graph =
        Inr [[''a_threat.txt'', ''rifle'', ''mask''], [''b_safe.txt'', ''food'']]"
    by (simp add: example_communities_def)
  then show ?thesis
    by (rule example_pipeline)
qed

text \<open>
  C6 as stated fails: whatever the community detection returns, the report of the
  pipeline on the example records never has \<^verbatim>\<open>a_threat.txt\<close> as its related files; with
  the two connected components as communities the pipeline returns, and the related
  files are empty.
\<close>

theorem example_related_files_empty:
  "(\<forall>gmc. \<not> (\<exists>res st. process_metadata gmc example_records = (Inr res, st) \<and>
                 related_files (threat_report res) = {''a_threat.txt''})) \<and>
   (\<exists>res st. process_metadata example_communities example_records = (Inr res, st) \<and>
      fst (tag_correlations res) = [] \<and>
      weapon_related_tags (threat_report res) = [''rifle'', ''mask''] \<and>
      related_files (threat_report res) = {})"
proof (intro conjI allI)
  fix gmc
  show "\<not> (\<exists>res st. process_metadata gmc example_records = (Inr res, st) \<and>
                 related_files (threat_report res) = {''a_threat.txt''})"
    unfolding process_example
    by (cases "gmc example_graph") (auto simp: example_report_def)
next
  show "\<exists>res st. process_metadata example_communities example_records = (Inr res, st) \<and>
      fst (tag_correlations res) = [] \<and>
      weapon_related_tags (threat_report res) = [''rifle'', ''mask''] \<and>
      related_files (threat_report res) = {}"
    unfolding process_example
    by (simp add: example_communities_def example_report_def)
qed

section \<open>The index lists are written by the load alone\<close>

lemma find_frame:
  "threat_items (snd (find_tag_correlations s)) = threat_items s \<and>
   safe_items (snd (find_tag_correlations s)) = safe_items s"
  by (simp add: find_tag_correlations_def Let_def split: option.splits sum.splits prod.splits)

lemma build_frame:
  "threat_items (snd (build_tag_graph gmc s)) = threat_items s \<and>
   safe_items (snd (build_tag_graph gmc s)) = safe_items s"
  by (simp add: build_tag_graph_def Let_def split: option.splits sum.splits prod.splits)

lemma content_frame:
  "threat_items (snd (analyze_content s)) = threat_items s \<and>
   safe_items (snd (analyze_content s)) = safe_items s"
  by (simp add: analyze_content_def split: option.splits sum.splits)

lemma ensure_correlations_frame:
  "threat_items (snd (ensure_correlations s)) = threat_items s \<and>
   safe_items (snd (ensure_correlations s)) = safe_items s"
proof (cases "find_tag_correlations s")
  case (Pair r s')
  with find_frame[of s] show ?thesis
    by (cases r) (simp_all add: ensure_correlations_def)
qed

lemma ensure_graph_frame:
  "threat_items (snd (ensure_graph gmc s)) = threat_items s \<and>
   safe_items (snd (ensure_graph gmc s)) = safe_items s"
proof (cases "build_tag_graph gmc s")
  case (Pair r s')
  with build_frame[of gmc s] show ?thesis
    by (cases r) (simp_all add: ensure_graph_def)
qed

lemma report_frame:
  "threat_items (snd (generate_threat_report gmc s)) = threat_items s \<and>
   safe_items (snd (generate_threat_report gmc s)) = safe_items s"
proof (cases "ensure_correlations s")
  case c: (Pair r1 s1)
  show ?thesis
  proof (cases r1)
    case (Inl e)
    with c ensure_correlations_frame[of s] show ?thesis
      by (simp add: generate_threat_report_def)
  next
    case r: (Inr u)
    show ?thesis
    proof (cases "ensure_graph gmc s1")
      case g: (Pair r2 s2)
      with c r ensure_correlations_frame[of s] ensure_graph_frame[of gmc s1] show ?thesis
        by (cases r2) (simp_all add: generate_threat_report_def)
    qed
  qed
qed

text \<open>
  C1. For every record sequence in which every record has a path, loading it into a
  fresh session succeeds, and the threat indices and the safe indices are disjoint and
  together are all the indices of the sequence. No later analysis (tag correlation,
  graph building, content analysis, report generation) changes either index list, in
  any session and whether it returns or raises.
\<close>

theorem index_sets_partition:
  assumes "\<forall>it\<in>set d. path it \<noteq> None"
  shows "fst (load_json_data d init) = Inr () \<and>
         set (threat_items (snd (load_json_data d init))) \<inter>
           set (safe_items (snd (load_json_data d init))) = {} \<and>
         set (threat_items (snd (load_json_data d init))) \<union>
           set (safe_items (snd (load_json_data d init))) = {..<length d} \<and>
         (\<forall>s gmc.
            threat_items (snd (find_tag_correlations s)) = threat_items s \<and>
            safe_items (snd (find_tag_correlations s)) = safe_items s \<and>
            threat_items (snd (build_tag_graph gmc s)) = threat_items s \<and>
            safe_items (snd (build_tag_graph gmc s)) = safe_items s \<and>
            threat_items (snd (analyze_content s)) = threat_items s \<and>
            safe_items (snd (analyze_content s)) = safe_items s \<and>
            threat_items (snd (generate_threat_report gmc s)) = threat_items s \<and>
            safe_items (snd (generate_threat_report gmc s)) = safe_items s)"
  using partition_cover[OF assms] partition_disjoint[of d]
  by (simp add: load_all_paths[OF assms] init_def find_frame build_frame content_frame
      report_frame)

theorem index_sets_partition_witness:
  "fst (load_json_data example_records init) = Inr () \<and>
   set (threat_items (snd (load_json_data example_records init))) \<inter>
     set (safe_items (snd (load_json_data example_records init))) = {} \<and>
   set (threat_items (snd (load_json_data example_records init))) \<union>
     set (safe_items (snd (load_json_data example_records init))) = {..<length example_records} \<and>
   threat_items (snd (find_tag_correlations (snd (load_json_data example_records init)))) = [0] \<and>
   safe_items (snd (find_tag_correlations (snd (load_json_data example_records init)))) = [1]"
proof -
  have p: "\<forall>it\<in>set example_records. path it \<noteq> None"
    by (simp add: example_records_def example_a_def example_b_def)
  have t: "threat_items (snd (load_json_data example_records init)) = [0]"
    and s: "safe_items (snd (load_json_data example_records init)) = [1]"
    by (simp_all add: load_example)
  from index_sets_partition[OF p] t s show ?thesis
    by simp
qed

section \<open>Claims about the similarity analyzer\<close>

















section \<open>Claims about the tag correlation engine\<close>

subsection \<open>Counters\<close>

lemma map_of_increment:
  "map_of (increment k m) k' =
   (if k' = k then Some (case map_of m k of None \<Rightarrow> 1 | Some n \<Rightarrow> n + 1) else map_of m k')"
  by (induction m) auto

lemma keys_increment: "set (map fst (increment k m)) = insert k (set (map fst m))"
proof (induction m)
  case Nil
  then show ?case by simp
next
  case (Cons x m)
  obtain k' n where x: "x = (k', n)"
    by (cases x)
  show ?case
    using Cons.IH by (cases "k' = k") (simp_all add: x insert_commute)
qed

lemma distinct_increment: "distinct (map fst m) \<Longrightarrow> distinct (map fst (increment k m))"
proof (induction m)
  case Nil
  then show ?case by simp
next
  case (Cons x m)
  obtain k' n where x: "x = (k', n)"
    by (cases x)
  from Cons.prems x have "k' \<notin> set (map fst m)" and "distinct (map fst m)"
    by simp_all
  with Cons.IH x keys_increment[of k m] show ?case
    by auto
qed

lemma distinct_fold_increment:
  "distinct (map fst m) \<Longrightarrow> distinct (map fst (fold increment ks m))"
  by (induction ks arbitrary: m) (auto simp: distinct_increment)

lemma map_of_fold_increment:
  "map_of (fold increment ks m) k =
   (if k \<in> set ks \<or> map_of m k \<noteq> None
    then Some (count_list ks k + (case map_of m k of None \<Rightarrow> 0 | Some n \<Rightarrow> n))
    else None)"
proof (induction ks arbitrary: m)
  case Nil
  then show ?case by (auto split: option.splits)
next
  case (Cons x ks)
  show ?case
    by (simp add: Cons.IH map_of_increment split: option.splits)
qed

lemma map_of_count:
  "map_of (fold increment ks []) k =
   (if count_list ks k = 0 then None else Some (count_list ks k))"
  by (simp add: map_of_fold_increment count_list_0_iff)

subsection \<open>Pairs of one tag list\<close>

lemma sorted_pair_le: "sorted_pair a b = (x, y) \<Longrightarrow> x \<le> y"
  by (auto simp: sorted_pair_def split: if_splits)

lemma tag_pairs_le: "(x, y) \<in> set (tag_pairs ts) \<Longrightarrow> x \<le> y"
  by (induction ts) (auto simp: sorted_pair_def split: if_splits)

lemma tag_pairs_short: "length ts \<le> 1 \<Longrightarrow> tag_pairs ts = []"
  by (cases ts) auto

lemma count_sorted_pairs:
  assumes "distinct ts" and "t \<notin> set ts"
  shows "count_list (map (sorted_pair t) ts) (a, b) =
         (if a < b \<and> ((a = t \<and> b \<in> set ts) \<or> (b = t \<and> a \<in> set ts)) then 1 else 0)"
  using assms
proof (induction ts)
  case Nil
  then show ?case by simp
next
  case (Cons u ts)
  then show ?case
    by (auto simp: sorted_pair_def)
qed

lemma count_tag_pairs:
  assumes "distinct ts"
  shows "count_list (tag_pairs ts) (a, b) =
         (if a < b \<and> a \<in> set ts \<and> b \<in> set ts then 1 else 0)"
  using assms
proof (induction ts)
  case Nil
  then show ?case by simp
next
  case (Cons t ts)
  then have "distinct ts" "t \<notin> set ts"
    by simp_all
  with Cons.IH count_sorted_pairs[of ts t a b] show ?case
    by auto
qed


subsection \<open>The index from files to tags\<close>

lemma map_of_append_at:
  "map_of (append_at k v m) p =
   (if p = k then Some (lookup_list m k @ [v]) else map_of m p)"
  by (induction m) (auto simp: lookup_list_def)

lemma keys_append_at: "set (map fst (append_at k v m)) = insert k (set (map fst m))"
proof (induction m)
  case Nil
  then show ?case by simp
next
  case (Cons x m)
  obtain k' vs where x: "x = (k', vs)"
    by (cases x)
  show ?case
    using Cons.IH by (cases "k' = k") (simp_all add: x insert_commute)
qed

lemma distinct_append_at: "distinct (map fst m) \<Longrightarrow> distinct (map fst (append_at k v m))"
proof (induction m)
  case Nil
  then show ?case by simp
next
  case (Cons x m)
  obtain k' vs where x: "x = (k', vs)"
    by (cases x)
  from Cons.prems x have "k' \<notin> set (map fst m)" and "distinct (map fst m)"
    by simp_all
  with Cons.IH x keys_append_at[of k v m] show ?case
    by auto
qed

lemma snd_index_item_tags:
  "snd (index_item_tags p ts idx) = fold (append_at p) ts (snd idx)"
  unfolding index_item_tags_def
  by (induction ts arbitrary: idx) (auto simp: case_prod_beta)

lemma map_of_fold_append:
  "map_of (fold (append_at p) ts m) q =
   (if q = p \<and> ts \<noteq> [] then Some (lookup_list m p @ ts) else map_of m q)"
proof (induction ts arbitrary: m)
  case Nil
  then show ?case by simp
next
  case (Cons t ts)
  show ?case
    by (simp add: Cons.IH map_of_append_at lookup_list_def)
qed

lemma distinct_fold_append:
  "distinct (map fst m) \<Longrightarrow> distinct (map fst (fold (append_at p) ts m))"
  by (induction ts arbitrary: m) (auto simp: distinct_append_at)

lemma index_items_returns:
  assumes "\<forall>it\<in>set d. path it \<noteq> None"
  shows "\<exists>idx'. index_items d idx = Inr idx' \<and>
           (distinct (map fst (snd idx)) \<longrightarrow> distinct (map fst (snd idx'))) \<and>
           (\<forall>q. map_of (snd idx') q =
                  (if tags_of_file d q = [] then map_of (snd idx) q
                   else Some (lookup_list (snd idx) q @ tags_of_file d q)))"
  using assms
proof (induction d arbitrary: idx)
  case Nil
  then show ?case by (simp add: tags_of_file_def)
next
  case (Cons x d)
  then obtain p where p: "path x = Some p"
    by auto
  let ?idx1 = "index_item_tags p (get_tags x) idx"
  from Cons.prems have rest: "\<forall>it\<in>set d. path it \<noteq> None"
    by simp
  from Cons.IH[OF rest, of ?idx1] obtain idx' where
    r: "index_items d ?idx1 = Inr idx'"
    and dst: "distinct (map fst (snd ?idx1)) \<longrightarrow> distinct (map fst (snd idx'))"
    and lk: "\<forall>q. map_of (snd idx') q =
                  (if tags_of_file d q = [] then map_of (snd ?idx1) q
                   else Some (lookup_list (snd ?idx1) q @ tags_of_file d q))"
    by blast
  have m1: "\<And>q. map_of (snd ?idx1) q =
              (if q = p \<and> get_tags x \<noteq> [] then Some (lookup_list (snd idx) p @ get_tags x)
               else map_of (snd idx) q)"
    by (simp add: snd_index_item_tags map_of_fold_append)
  have t: "\<And>q. tags_of_file (x # d) q =
              (if q = p then get_tags x @ tags_of_file d q else tags_of_file d q)"
    using p by (auto simp: tags_of_file_def)
  have "index_items (x # d) idx = Inr idx'"
    using p r by simp
  moreover have "distinct (map fst (snd idx)) \<longrightarrow> distinct (map fst (snd idx'))"
    using dst by (simp add: snd_index_item_tags distinct_fold_append)
  moreover have "\<forall>q. map_of (snd idx') q =
                  (if tags_of_file (x # d) q = [] then map_of (snd idx) q
                   else Some (lookup_list (snd idx) q @ tags_of_file (x # d) q))"
    using lk by (auto simp: m1 t lookup_list_def)
  ultimately show ?case
    by blast
qed

lemma index_items_empty:
  assumes "\<forall>it\<in>set d. path it \<noteq> None"
  shows "\<exists>t2f f2t. index_items d ([], []) = Inr (t2f, f2t) \<and> distinct (map fst f2t) \<and>
           (\<forall>q. map_of f2t q = (if tags_of_file d q = [] then None else Some (tags_of_file d q)))"
proof -
  from index_items_returns[OF assms, of "([], [])"] obtain idx' where
    "index_items d ([], []) = Inr idx'" "distinct (map fst (snd idx'))"
    "\<forall>q. map_of (snd idx') q = (if tags_of_file d q = [] then None else Some (tags_of_file d q))"
    by (auto simp: lookup_list_def)
  then show ?thesis
    by (cases idx') auto
qed

subsection \<open>Counting over the files\<close>

lemma count_list_concat:
  "count_list (concat xss) k = sum_list (map (\<lambda>xs. count_list xs k) xss)"
  by (induction xss) auto

lemma count_file_pairs:
  "count_list (file_pairs f2t) k = sum_list (map (\<lambda>(p, ts). count_list (tag_pairs ts) k) f2t)"
proof -
  have "\<And>ts. count_list (if 1 < length ts then tag_pairs ts else []) k =
             count_list (tag_pairs ts) k"
    by (simp add: tag_pairs_short)
  then show ?thesis
    by (simp add: file_pairs_def count_list_concat comp_def case_prod_unfold)
qed

lemma count_file_pairs_files:
  assumes "distinct (map fst f2t)"
    and "\<forall>q. map_of f2t q = (if tags_of_file d q = [] then None else Some (tags_of_file d q))"
  shows "count_list (file_pairs f2t) k = pair_positions d k"
proof -
  have e: "\<And>p ts. (p, ts) \<in> set f2t \<Longrightarrow> ts = tags_of_file d p"
  proof -
    fix p ts
    assume "(p, ts) \<in> set f2t"
    with assms(1) have "map_of f2t p = Some ts"
      by simp
    with assms(2) show "ts = tags_of_file d p"
      by (auto split: if_splits)
  qed
  have me: "map (\<lambda>(p, ts). count_list (tag_pairs ts) k) f2t =
        map (\<lambda>p. count_list (tag_pairs (tags_of_file d p)) k) (map fst f2t)"
    using e by (auto simp: case_prod_beta)
  have "count_list (file_pairs f2t) k =
             sum_list (map (\<lambda>p. count_list (tag_pairs (tags_of_file d p)) k) (map fst f2t))"
    by (simp only: count_file_pairs me)
  also have "\<dots> = (\<Sum>p\<in>set (map fst f2t). count_list (tag_pairs (tags_of_file d p)) k)"
    using assms(1) by (rule sum_list_distinct_conv_sum_set)
  also have "set (map fst f2t) = tagged_files d"
  proof -
    have "set (map fst f2t) = dom (map_of f2t)"
      by (simp add: dom_map_of_conv_image_fst)
    also have "\<dots> = tagged_files d"
      using assms(2) by (auto simp: tagged_files_def dom_def)
    finally show ?thesis .
  qed
  finally show ?thesis
    by (simp add: pair_positions_def)
qed

lemma finite_tagged_files: "finite (tagged_files d)"
proof -
  have "tagged_files d \<subseteq> (\<lambda>it. the (path it)) ` set d"
  proof
    fix p
    assume "p \<in> tagged_files d"
    then have "filter (\<lambda>it. path it = Some p) d \<noteq> []"
      by (auto simp: tagged_files_def tags_of_file_def filter_empty_conv)
    then obtain it where "it \<in> set d" "path it = Some p"
      by (auto simp: filter_empty_conv)
    then have "it \<in> set d" "p = the (path it)"
      by simp_all
    then show "p \<in> (\<lambda>it. the (path it)) ` set d"
      by (rule rev_image_eqI)
  qed
  then show ?thesis
    by (rule finite_subset) simp
qed

lemma pair_positions_distinct:
  assumes "\<forall>p. distinct (tags_of_file d p)"
  shows "pair_positions d (a, b) = (if a < b then card (files_with_both d a b) else 0)"
proof -
  have s: "files_with_both d a b = {p \<in> tagged_files d. a \<in> set (tags_of_file d p) \<and> b \<in> set (tags_of_file d p)}"
    by (auto simp: files_with_both_def tagged_files_def)
  have "pair_positions d (a, b) =
        (\<Sum>p\<in>tagged_files d. if a < b \<and> a \<in> set (tags_of_file d p) \<and> b \<in> set (tags_of_file d p) then 1 else 0)"
    using assms by (simp add: pair_positions_def count_tag_pairs)
  also have "\<dots> = (if a < b then card (files_with_both d a b) else 0)"
    using finite_tagged_files[of d] by (simp add: s sum.If_cases Int_def)
  finally show ?thesis .
qed


lemma file_pairs_le: "(a, b) \<in> set (file_pairs f2t) \<Longrightarrow> a \<le> b"
  by (auto simp: file_pairs_def dest: tag_pairs_le split: if_splits)

lemma finite_files_with_both: "finite (files_with_both d a b)"
proof -
  have "files_with_both d a b \<subseteq> tagged_files d"
    by (auto simp: files_with_both_def tagged_files_def)
  then show ?thesis
    using finite_tagged_files by (rule finite_subset)
qed

lemma find_tag_correlations_returns:
  assumes "data st = Some d" and "\<forall>it\<in>set d. path it \<noteq> None"
  shows "\<exists>t2f f2t. fst (find_tag_correlations st) =
             Inr (filter (\<lambda>(tag, files). 1 < length files) t2f, count_cooccurrence f2t) \<and>
           distinct (map fst f2t) \<and>
           (\<forall>q. map_of f2t q = (if tags_of_file d q = [] then None else Some (tags_of_file d q)))"
proof -
  from index_items_empty[OF assms(2)] obtain t2f f2t where
    "index_items d ([], []) = Inr (t2f, f2t)" "distinct (map fst f2t)"
    "\<forall>q. map_of f2t q = (if tags_of_file d q = [] then None else Some (tags_of_file d q))"
    by blast
  then show ?thesis
    using assms(1) by (auto simp: find_tag_correlations_def Let_def)
qed

lemma load_dup:
  "load_json_data dup_records init =
   (Inr (), init\<lparr>data := Some dup_records, threat_items := [], safe_items := [0]\<rparr>)"
  by (simp add: load_json_data_def categorize_items_def init_def dup_records_def classify_def
      lower_def content_str_def has_content_def get_tags_def str_list_def py_repr_def
      repr_char_def code_def char_tables weapon_words_def content_keywords_def Let_def)

lemma find_dup:
  assumes "data st = Some dup_records"
  shows "fst (find_tag_correlations st) = Inr ([(''a'', [''f.txt'', ''f.txt''])], [((''a'', ''a''), 1), ((''a'', ''b''), 2)])"
  using assms
  by (simp add: find_tag_correlations_def dup_records_def index_item_tags_def get_tags_def
      count_cooccurrence_def file_pairs_def sorted_pair_def Let_def)

lemma tags_of_file_example:
  "tags_of_file example_records p =
   (if p = ''a_threat.txt'' then [''rifle'', ''mask'']
    else if p = ''b_safe.txt'' then [''food''] else [])"
  by (simp add: tags_of_file_def example_records_def example_a_def example_b_def get_tags_def)

text \<open>
  C4 (as amended). For every session whose records all have a path, the tag correlation
  returns, and in its co-occurrence map no key occurs twice, every key is a sorted pair
  (so (A,B) and (B,A) are both keys only when A = B), every count is positive, and the
  count of a pair is the number of positions \<open>i < j\<close> in the tag list of a file whose two
  tags sort to the pair, summed over the files; the tag list of a file is that of all
  records with its path. When no file's tag list names a tag twice, the keys are pairs
  of two distinct tags, and the count of a pair is the number of distinct files on which
  both tags appear, each file contributing each of its pairs once.
\<close>

theorem cooccurrence_counts:
  assumes "data st = Some d" and "\<forall>it\<in>set d. path it \<noteq> None"
  shows "\<exists>shared cooc. fst (find_tag_correlations st) = Inr (shared, cooc) \<and>
           distinct (map fst cooc) \<and>
           (\<forall>a b n. ((a, b), n) \<in> set cooc \<longrightarrow> a \<le> b \<and> 0 < n) \<and>
           (\<forall>a b. (a, b) \<in> set (map fst cooc) \<and> (b, a) \<in> set (map fst cooc) \<longrightarrow> a = b) \<and>
           (\<forall>a b. map_of cooc (a, b) =
              (if pair_positions d (a, b) = 0 then None else Some (pair_positions d (a, b)))) \<and>
           ((\<forall>p. distinct (tags_of_file d p)) \<longrightarrow>
              (\<forall>a b. map_of cooc (a, b) =
                 (if a < b \<and> files_with_both d a b \<noteq> {}
                  then Some (card (files_with_both d a b)) else None)))"
proof -
  from find_tag_correlations_returns[OF assms] obtain t2f f2t where
    r: "fst (find_tag_correlations st) =
          Inr (filter (\<lambda>(tag, files). 1 < length files) t2f, count_cooccurrence f2t)"
    and dst: "distinct (map fst f2t)"
    and lk: "\<forall>q. map_of f2t q = (if tags_of_file d q = [] then None else Some (tags_of_file d q))"
    by blast
  let ?cooc = "count_cooccurrence f2t"
  have dc: "distinct (map fst ?cooc)"
    by (simp add: count_cooccurrence_def distinct_fold_increment)
  have m: "\<And>k. map_of ?cooc k =
             (if pair_positions d k = 0 then None else Some (pair_positions d k))"
    by (simp add: count_cooccurrence_def map_of_count count_file_pairs_files[OF dst lk])
  have c: "\<And>k. map_of ?cooc k =
             (if count_list (file_pairs f2t) k = 0 then None
              else Some (count_list (file_pairs f2t) k))"
    by (simp add: count_cooccurrence_def map_of_count)
  have canon: "\<And>a b n. ((a, b), n) \<in> set ?cooc \<Longrightarrow> a \<le> b \<and> 0 < n"
  proof -
    fix a b n
    assume "((a, b), n) \<in> set ?cooc"
    with dc have "map_of ?cooc (a, b) = Some n"
      by simp
    with c[of "(a, b)"] have n: "count_list (file_pairs f2t) (a, b) = n" "n \<noteq> 0"
      by (auto split: if_splits)
    then have "(a, b) \<in> set (file_pairs f2t)"
      using count_list_0_iff[of "file_pairs f2t" "(a, b)"] by auto
    with n show "a \<le> b \<and> 0 < n"
      by (auto dest: file_pairs_le)
  qed
  have sym: "\<And>a b. (a, b) \<in> set (map fst ?cooc) \<and> (b, a) \<in> set (map fst ?cooc) \<Longrightarrow> a = b"
  proof -
    fix a b
    assume "(a, b) \<in> set (map fst ?cooc) \<and> (b, a) \<in> set (map fst ?cooc)"
    then obtain n n' where "((a, b), n) \<in> set ?cooc" "((b, a), n') \<in> set ?cooc"
      by auto
    then have "a \<le> b" "b \<le> a"
      using canon by blast+
    then show "a = b"
      by simp
  qed
  have dist: "(\<forall>p. distinct (tags_of_file d p)) \<Longrightarrow>
              (\<forall>a b. map_of ?cooc (a, b) =
                 (if a < b \<and> files_with_both d a b \<noteq> {}
                  then Some (card (files_with_both d a b)) else None))"
    using finite_files_with_both[of d]
    by (auto simp: m pair_positions_distinct)
  from r dc canon sym m dist show ?thesis
    by blast
qed

theorem cooccurrence_counts_witness:
  "(\<exists>shared cooc. fst (find_tag_correlations example_session) = Inr (shared, cooc) \<and>
      distinct (map fst cooc) \<and>
      map_of cooc (''mask'', ''rifle'') =
        Some (card (files_with_both example_records ''mask'' ''rifle'')) \<and>
      map_of cooc (''rifle'', ''mask'') = None) \<and>
   files_with_both example_records ''mask'' ''rifle'' = {''a_threat.txt''}"
proof -
  have d: "data example_session = Some example_records"
    by (simp add: example_session_def)
  have p: "\<forall>it\<in>set example_records. path it \<noteq> None"
    by (simp add: example_records_def example_a_def example_b_def)
  have dist: "\<forall>p. distinct (tags_of_file example_records p)"
    by (simp add: tags_of_file_example)
  have f: "files_with_both example_records ''mask'' ''rifle'' = {''a_threat.txt''}"
    by (auto simp: files_with_both_def tags_of_file_example split: if_splits)
  have lt: "(''mask'' :: string) < ''rifle''" "\<not> (''rifle'' :: string) < ''mask''"
    by simp_all
  from cooccurrence_counts[OF d p] dist obtain shared cooc where
    r: "fst (find_tag_correlations example_session) = Inr (shared, cooc)"
    and dc: "distinct (map fst cooc)"
    and m: "\<forall>a b. map_of cooc (a, b) =
                 (if a < b \<and> files_with_both example_records a b \<noteq> {}
                  then Some (card (files_with_both example_records a b)) else None)"
    by blast
  from m lt f have "map_of cooc (''mask'', ''rifle'') =
        Some (card (files_with_both example_records ''mask'' ''rifle''))"
    "map_of cooc (''rifle'', ''mask'') = None"
    by simp_all
  with r dc f show ?thesis
    by blast
qed

text \<open>
  C4 as stated fails for a record whose tag list names a tag twice. For the one record
  with the tags \<^verbatim>\<open>a, a, b\<close> the map holds the pair (a, a), and it counts the pair (a, b)
  twice although one file holds both tags.
\<close>

theorem duplicate_tag_is_paired_with_itself:
  "fst (find_tag_correlations (snd (load_json_data dup_records init))) =
     Inr ([(''a'', [''f.txt'', ''f.txt''])], [((''a'', ''a''), 1), ((''a'', ''b''), 2)]) \<and>
   files_with_both dup_records ''a'' ''b'' = {''f.txt''}"
proof -
  have "data (snd (load_json_data dup_records init)) = Some dup_records"
    by (simp add: load_dup)
  then have "fst (find_tag_correlations (snd (load_json_data dup_records init))) =
     Inr ([(''a'', [''f.txt'', ''f.txt''])], [((''a'', ''a''), 1), ((''a'', ''b''), 2)])"
    by (rule find_dup)
  moreover have "files_with_both dup_records ''a'' ''b'' = {''f.txt''}"
    by (auto simp: files_with_both_def tags_of_file_def dup_records_def get_tags_def
        split: if_splits)
  ultimately show ?thesis
    by simp
qed

end
